theory Spec2Isabelle
  imports Complex_Main
begin

section \<open>JSON values and Python dictionaries\<close>

text \<open>
  A job record is a Python dict loaded from \<^verbatim>\<open>jobs.json\<close>. Its values are JSON
  scalars; floats, arrays and nested objects are never written by the queue manager and
  are left out of the value type. A dict is an association list in insertion order, as
  Python keeps it; a well-formed dict has distinct keys.
\<close>

datatype jval = JNull | JBool bool | JInt int | JStr string

type_synonym jdict = "(string \<times> jval) list"

datatype error =
    KeyError | ValueError string | RuntimeError | TypeError | ZeroDivisionError | OverflowError
  | JSONDecodeError | UnicodeDecodeError | RecursionError

text \<open>Python's \<^verbatim>\<open>==\<close> on these values: \<^verbatim>\<open>True == 1\<close> and \<^verbatim>\<open>False == 0\<close> hold.\<close>

fun py_eq :: "jval \<Rightarrow> jval \<Rightarrow> bool" where
  "py_eq (JBool b) (JInt n) = ((if b then 1 else 0) = n)"
| "py_eq (JInt n) (JBool b) = (n = (if b then 1 else 0))"
| "py_eq x y = (x = y)"

text \<open>Truthiness, as \<^verbatim>\<open>if x:\<close> tests it.\<close>

fun py_truthy :: "jval \<Rightarrow> bool" where
  "py_truthy JNull = False"
| "py_truthy (JBool b) = b"
| "py_truthy (JInt n) = (n \<noteq> 0)"
| "py_truthy (JStr s) = (s \<noteq> [])"

text \<open>\<^verbatim>\<open>d.get(k)\<close> and \<^verbatim>\<open>d.get(k, default)\<close>.\<close>

definition dict_get :: "jdict \<Rightarrow> string \<Rightarrow> jval" where
  "dict_get d k = (case map_of d k of None \<Rightarrow> JNull | Some v \<Rightarrow> v)"

definition dict_get_default :: "jdict \<Rightarrow> string \<Rightarrow> jval \<Rightarrow> jval" where
  "dict_get_default d k dflt = (case map_of d k of None \<Rightarrow> dflt | Some v \<Rightarrow> v)"

text \<open>\<^verbatim>\<open>d[k] = v\<close>: an existing key keeps its position, a new key goes last.\<close>

primrec dict_set :: "'k \<Rightarrow> 'v \<Rightarrow> ('k \<times> 'v) list \<Rightarrow> ('k \<times> 'v) list" where
  "dict_set k v [] = [(k, v)]"
| "dict_set k v (p # ps) = (if fst p = k then (k, v) # ps else p # dict_set k v ps)"

text \<open>\<^verbatim>\<open>{**d, **u}\<close> and \<^verbatim>\<open>d.update(u)\<close>: the entries of \<open>u\<close> are stored one by one.\<close>

definition dict_update :: "jdict \<Rightarrow> jdict \<Rightarrow> jdict" where
  "dict_update d u = fold (\<lambda>(k, v) acc. dict_set k v acc) u d"

text \<open>\<^verbatim>\<open>xs[:n]\<close>: a negative bound counts from the end.\<close>

definition py_slice_to :: "'a list \<Rightarrow> int \<Rightarrow> 'a list" where
  "py_slice_to xs n = (if 0 \<le> n then take (nat n) xs else take (length xs - nat (- n)) xs)"

section \<open>The environment of one call\<close>

text \<open>
  What a call observes outside the job table: the two configuration values (already
  converted by \<^verbatim>\<open>int(self.config.get(...))\<close>), the clock readings, and the library
  functions of \<^verbatim>\<open>datetime\<close> and \<^verbatim>\<open>int\<close> the code calls. Timestamps are seconds as
  rationals; the rounding of Python floats is not modelled.
  \<^item> \<open>now_ts\<close>: the current time, \<^verbatim>\<open>datetime.now(timezone.utc).timestamp()\<close>
  \<^item> \<open>utc_offset\<close>: the offset of the machine's local time zone from UTC, in seconds east
  \<^item> \<open>utcnow_iso\<close>: \<^verbatim>\<open>datetime.utcnow().isoformat() + "Z"\<close>
  \<^item> \<open>gmtime_str\<close>: \<^verbatim>\<open>time.strftime("%Y-%m-%dT%H:%M:%SZ", time.gmtime())\<close>
  \<^item> \<open>iso_of_ts t\<close>: \<^verbatim>\<open>datetime.fromtimestamp(t, tz=timezone.utc).isoformat()\<close>, or the
    exception \<^verbatim>\<open>fromtimestamp\<close> raises (ValueError for a year outside 1..9999,
    OverflowError or OSError beyond the platform's \<^verbatim>\<open>time_t\<close>)
  \<^item> \<open>ts_of_iso s\<close>: \<^verbatim>\<open>datetime.fromisoformat(s.replace("Z", "+00:00")).timestamp()\<close>,
    \<open>None\<close> when it raises
  \<^item> \<open>int_of_str s\<close>: \<^verbatim>\<open>int(s)\<close> on a string, \<open>None\<close> when it raises ValueError
\<close>

record env =
  cfg_max_retries :: int
  cfg_backoff_base :: int
  now_ts :: rat
  utc_offset :: rat
  utcnow_iso :: string
  gmtime_str :: string
  iso_of_ts :: "rat \<Rightarrow> error + string"
  ts_of_iso :: "string \<Rightarrow> rat option"
  int_of_str :: "string \<Rightarrow> int option"

text \<open>\<^verbatim>\<open>int(x)\<close>.\<close>

fun py_int :: "env \<Rightarrow> jval \<Rightarrow> error + int" where
  "py_int e (JInt n) = Inr n"
| "py_int e (JBool b) = Inr (if b then 1 else 0)"
| "py_int e JNull = Inl TypeError"
| "py_int e (JStr s) =
     (case int_of_str e s of None \<Rightarrow> Inl (ValueError ''invalid literal for int()'') | Some n \<Rightarrow> Inr n)"

text \<open>
  \<^verbatim>\<open>datetime.utcnow().timestamp()\<close>: \<^verbatim>\<open>utcnow()\<close> is a naive datetime showing UTC, and
  \<^verbatim>\<open>timestamp()\<close> reads a naive datetime as local time, so the result is the current time
  less the offset of the local zone.
\<close>

definition utcnow_ts :: "env \<Rightarrow> rat" where
  "utcnow_ts e = now_ts e - utc_offset e"

text \<open>
  A Python number is an int or a float. Converting an int to a float raises OverflowError
  when it rounds to \<open>2 ^ 1024\<close> or beyond.
\<close>

datatype pynum = PyInt int | PyFloat rat

definition float_overflow :: "int \<Rightarrow> bool" where
  "float_overflow n = (2 ^ 1024 - 2 ^ 970 \<le> \<bar>n\<bar>)"

text \<open>
  \<^verbatim>\<open>b ** x\<close> on two ints: an int for \<open>x \<ge> 0\<close>. For \<open>x < 0\<close> both are converted to float
  and the result is the float \<open>1 / b ** -x\<close>, with ZeroDivisionError for \<open>b = 0\<close>.
\<close>

definition py_pow :: "int \<Rightarrow> int \<Rightarrow> error + pynum" where
  "py_pow b x =
     (if 0 \<le> x then Inr (PyInt (b ^ nat x))
      else if float_overflow b \<or> float_overflow x then Inl OverflowError
      else if b = 0 then Inl ZeroDivisionError
      else Inr (PyFloat (1 / of_int (b ^ nat (- x)))))"

text \<open>\<^verbatim>\<open>t + d\<close> for a float \<open>t\<close>: an int \<open>d\<close> is converted to float first.\<close>

fun float_add :: "rat \<Rightarrow> pynum \<Rightarrow> error + rat" where
  "float_add t (PyInt n) = (if float_overflow n then Inl OverflowError else Inr (t + of_int n))"
| "float_add t (PyFloat x) = Inr (t + x)"

section \<open>storage.py: the job table\<close>

text \<open>
  What \<^verbatim>\<open>_read\<close> returns: the file either makes \<^verbatim>\<open>json.load\<close> raise json.JSONDecodeError
  (\<open>BadJson\<close>; the \<^verbatim>\<open>except\<close> branch then gives the empty table) or holds a table; a
  parseable document is modelled by its \<^verbatim>\<open>"jobs"\<close> array. A file on which \<^verbatim>\<open>json.load\<close>
  raises anything else is not a \<open>jfile\<close>: \<^verbatim>\<open>_read\<close> does not return on it (\<open>json_load\<close>
  below). \<open>writes\<close> lists the outcomes
  of the coming calls of \<^verbatim>\<open>_write_atomic\<close> (\<open>False\<close>: the call raises and the file stays
  as it was); past the end of the list every write succeeds.
\<close>

datatype jfile = BadJson | Doc "jdict list"

record store =
  disk :: jfile
  writes :: "bool list"

text \<open>\<^verbatim>\<open>self._read().get("jobs", [])\<close>\<close>

definition storage_read :: "store \<Rightarrow> jdict list" where
  "storage_read s = (case disk s of BadJson \<Rightarrow> [] | Doc js \<Rightarrow> js)"

text \<open>
  \<^verbatim>\<open>_read\<close> itself: \<^verbatim>\<open>json.load(f)\<close> returns the document or raises, and only
  json.JSONDecodeError is caught (the file then reads as \<open>BadJson\<close>, the empty table);
  any other exception leaves \<^verbatim>\<open>_read\<close>, for instance UnicodeDecodeError for bytes that are
  not UTF-8 and RecursionError for nesting beyond the interpreter's limit.
\<close>

datatype json_load = Loads "jdict list" | Raises error

definition file_of_load :: "json_load \<Rightarrow> error + jfile" where
  "file_of_load l =
     (case l of
        Loads js \<Rightarrow> Inr (Doc js)
      | Raises err \<Rightarrow> if err = JSONDecodeError then Inr BadJson else Inl err)"

definition write_atomic :: "store \<Rightarrow> jdict list \<Rightarrow> bool \<times> store" where
  "write_atomic s js =
     (case writes s of
        [] \<Rightarrow> (True, s\<lparr>disk := Doc js\<rparr>)
      | ok # rest \<Rightarrow>
          if ok then (True, s\<lparr>disk := Doc js, writes := rest\<rparr>)
          else (False, s\<lparr>writes := rest\<rparr>))"

definition list_jobs :: "store \<Rightarrow> int option \<Rightarrow> string option \<Rightarrow> jdict list" where
  "list_jobs s limit state =
     (let jobs = storage_read s;
          jobs = (case state of
                    None \<Rightarrow> jobs
                  | Some st \<Rightarrow>
                      if st \<noteq> [] then filter (\<lambda>j. py_eq (dict_get j ''state'') (JStr st)) jobs
                      else jobs)
      in case limit of
           None \<Rightarrow> jobs
         | Some n \<Rightarrow> if n \<noteq> 0 then py_slice_to jobs n else jobs)"

fun find_job :: "jval \<Rightarrow> jdict list \<Rightarrow> jdict option" where
  "find_job job_id [] = None"
| "find_job job_id (j # js) =
     (if py_eq (dict_get j ''id'') job_id then Some j else find_job job_id js)"

definition get_job :: "store \<Rightarrow> jval \<Rightarrow> jdict option" where
  "get_job s job_id = find_job job_id (storage_read s)"

text \<open>The \<^verbatim>\<open>for idx, j in enumerate(jobs)\<close> loops: the index of the first match.\<close>

fun find_idx :: "jval \<Rightarrow> jdict list \<Rightarrow> nat option" where
  "find_idx job_id [] = None"
| "find_idx job_id (j # js) =
     (if py_eq (dict_get j ''id'') job_id then Some 0
      else map_option Suc (find_idx job_id js))"

fun create_job_loop :: "nat \<Rightarrow> store \<Rightarrow> jdict \<Rightarrow> (error + jdict) \<times> store" where
  "create_job_loop 0 s job = (Inl RuntimeError, s)"
| "create_job_loop (Suc n) s job =
     (let jobs = storage_read s @ [job];
          (ok, s') = write_atomic s jobs
      in if ok then (Inr job, s') else create_job_loop n s' job)"

definition create_job :: "store \<Rightarrow> jdict \<Rightarrow> (error + jdict) \<times> store" where
  "create_job s job = create_job_loop 3 s job"

fun update_job_loop :: "nat \<Rightarrow> store \<Rightarrow> jval \<Rightarrow> jdict \<Rightarrow> (error + jdict) \<times> store" where
  "update_job_loop 0 s job_id updates = (Inl RuntimeError, s)"
| "update_job_loop (Suc n) s job_id updates =
     (let jobs = storage_read s
      in case find_idx job_id jobs of
           None \<Rightarrow> (Inl KeyError, s)
         | Some idx \<Rightarrow>
             let jobs = jobs[idx := dict_update (jobs ! idx) updates];
                 (ok, s') = write_atomic s jobs
             in if ok then (Inr (jobs ! idx), s') else update_job_loop n s' job_id updates)"

definition update_job :: "store \<Rightarrow> jval \<Rightarrow> jdict \<Rightarrow> (error + jdict) \<times> store" where
  "update_job s job_id updates = update_job_loop 3 s job_id updates"

fun atomic_state_transition_loop ::
  "nat \<Rightarrow> env \<Rightarrow> store \<Rightarrow> jval \<Rightarrow> jval \<Rightarrow> jval \<Rightarrow> jdict \<Rightarrow> bool \<times> store" where
  "atomic_state_transition_loop 0 e s job_id from_state to_state extra = (False, s)"
| "atomic_state_transition_loop (Suc n) e s job_id from_state to_state extra =
     (let jobs = storage_read s
      in case find_idx job_id jobs of
           None \<Rightarrow> (False, s)
         | Some idx \<Rightarrow>
             let j = jobs ! idx
             in if \<not> py_eq (dict_get j ''state'') from_state then (False, s)
                else
                  let new_job = dict_update j [(''state'', to_state)];
                      new_job = dict_update new_job extra;
                      new_job = dict_set ''updated_at'' (JStr (gmtime_str e)) new_job;
                      jobs = jobs[idx := new_job];
                      (ok, s') = write_atomic s jobs
                  in if ok then (True, s')
                     else atomic_state_transition_loop n e s' job_id from_state to_state extra)"

definition atomic_state_transition ::
  "env \<Rightarrow> store \<Rightarrow> jval \<Rightarrow> jval \<Rightarrow> jval \<Rightarrow> jdict option \<Rightarrow> bool \<times> store" where
  "atomic_state_transition e s job_id from_state to_state extra =
     atomic_state_transition_loop 5 e s job_id from_state to_state
       (case extra of None \<Rightarrow> [] | Some x \<Rightarrow> x)"

section \<open>models.py: the Job dataclass\<close>

text \<open>
  The dataclass has nine fields and no others (the field \<^verbatim>\<open>id\<close> is \<open>j_id\<close> here, and
  so on). Python does not check the annotated types, so every field holds a JSON value.
\<close>

record Job =
  j_id :: jval
  j_command :: jval
  j_state :: jval
  j_attempts :: jval
  j_max_retries :: jval
  j_created_at :: jval
  j_updated_at :: jval
  j_error_message :: jval
  j_next_retry_at :: jval

definition job_fields :: "string list" where
  "job_fields = [''id'', ''command'', ''state'', ''attempts'', ''max_retries'',
                 ''created_at'', ''updated_at'', ''error_message'', ''next_retry_at'']"

text \<open>\<^verbatim>\<open>__post_init__\<close>\<close>

definition post_init :: "env \<Rightarrow> Job \<Rightarrow> Job" where
  "post_init e job =
     (let now = JStr (utcnow_iso e);
          job = (if j_created_at job = JNull then job\<lparr>j_created_at := now\<rparr> else job)
      in if j_updated_at job = JNull then job\<lparr>j_updated_at := now\<rparr> else job)"

text \<open>
  \<^verbatim>\<open>cls(**kwargs)\<close>: the generated \<^verbatim>\<open>__init__\<close> raises TypeError on a keyword that is
  not a field and on a missing \<^verbatim>\<open>id\<close> or \<^verbatim>\<open>command\<close>; the other fields have defaults.
\<close>

definition Job_init :: "env \<Rightarrow> jdict \<Rightarrow> error + Job" where
  "Job_init e kw =
     (if \<not> list_all (\<lambda>k. k \<in> set job_fields) (map fst kw) then Inl TypeError
      else case (map_of kw ''id'', map_of kw ''command'') of
             (Some i, Some c) \<Rightarrow>
               Inr (post_init e
                 \<lparr>j_id = i, j_command = c,
                  j_state = dict_get_default kw ''state'' (JStr ''pending''),
                  j_attempts = dict_get_default kw ''attempts'' (JInt 0),
                  j_max_retries = dict_get_default kw ''max_retries'' (JInt 3),
                  j_created_at = dict_get_default kw ''created_at'' JNull,
                  j_updated_at = dict_get_default kw ''updated_at'' JNull,
                  j_error_message = dict_get_default kw ''error_message'' JNull,
                  j_next_retry_at = dict_get_default kw ''next_retry_at'' JNull\<rparr>)
           | _ \<Rightarrow> Inl TypeError)"

definition to_dict :: "Job \<Rightarrow> jdict" where
  "to_dict job =
     [(''id'', j_id job), (''command'', j_command job), (''state'', j_state job),
      (''attempts'', j_attempts job), (''max_retries'', j_max_retries job),
      (''created_at'', j_created_at job), (''updated_at'', j_updated_at job),
      (''error_message'', j_error_message job), (''next_retry_at'', j_next_retry_at job)]"

definition from_dict :: "env \<Rightarrow> jdict \<Rightarrow> error + Job" where
  "from_dict e data =
     (let defaults = [(''state'', JStr ''pending''), (''attempts'', JInt 0),
                      (''max_retries'', JInt 3), (''created_at'', JNull),
                      (''updated_at'', JNull), (''error_message'', JNull),
                      (''next_retry_at'', JNull)];
          merged = dict_update defaults data
      in Job_init e merged)"

section \<open>queue_manager.py\<close>

text \<open>
  Every operation takes the environment and the store and returns its result, or the
  exception it raises, together with the store it leaves behind.
\<close>

text \<open>
  \<^verbatim>\<open>updated = self.storage.update_job(...); return Job.from_dict(updated)\<close>: an exception
  of the storage call propagates, otherwise the stored dict is converted.
\<close>

definition return_job :: "env \<Rightarrow> (error + jdict) \<times> store \<Rightarrow> (error + Job) \<times> store" where
  "return_job e rs =
     (case fst rs of Inl err \<Rightarrow> (Inl err, snd rs) | Inr updated \<Rightarrow> (from_dict e updated, snd rs))"

definition enqueue ::
  "env \<Rightarrow> store \<Rightarrow> string \<Rightarrow> string \<Rightarrow> int option \<Rightarrow> rat option \<Rightarrow> (error + Job) \<times> store" where
  "enqueue e s job_id command max_retries run_at =
     (let max_retries = (case max_retries of None \<Rightarrow> cfg_max_retries e | Some m \<Rightarrow> m);
          state = (if run_at = None then ''pending'' else ''scheduled'');
          job = post_init e
                  \<lparr>j_id = JStr job_id, j_command = JStr command, j_state = JStr state,
                   j_attempts = JInt 0, j_max_retries = JInt max_retries,
                   j_created_at = JNull, j_updated_at = JNull,
                   j_error_message = JNull, j_next_retry_at = JNull\<rparr>
      in case run_at of
           None \<Rightarrow> return_job e (create_job s (to_dict job))
         | Some t \<Rightarrow>
             (case iso_of_ts e t of
                Inl err \<Rightarrow> (Inl err, s)
              | Inr stamp \<Rightarrow>
                  return_job e (create_job s (to_dict (job\<lparr>j_next_retry_at := JStr stamp\<rparr>)))))"

text \<open>
  The \<^verbatim>\<open>try\<close> around the parse of \<^verbatim>\<open>next_retry_at\<close>: a value that is not a string has no
  \<^verbatim>\<open>replace\<close>, a string may fail to parse; both give \<open>t = 0\<close>.
\<close>

definition retry_ts :: "env \<Rightarrow> jval \<Rightarrow> rat" where
  "retry_ts e v =
     (case v of
        JStr str \<Rightarrow> (case ts_of_iso e str of None \<Rightarrow> 0 | Some t \<Rightarrow> t)
      | _ \<Rightarrow> 0)"

fun claim_loop :: "env \<Rightarrow> store \<Rightarrow> jdict list \<Rightarrow> (error + Job option) \<times> store" where
  "claim_loop e s [] = (Inr None, s)"
| "claim_loop e s (j # js) =
     (let state = dict_get j ''state''
      in if \<not> (py_eq state (JStr ''pending'') \<or> py_eq state (JStr ''scheduled''))
         then claim_loop e s js
         else
           let next_retry = dict_get j ''next_retry_at''
           in if py_truthy next_retry \<and> retry_ts e next_retry > now_ts e
              then claim_loop e s js
              else
                let (ok, s') = atomic_state_transition e s (dict_get j ''id'') state
                                 (JStr ''processing'') (Some [])
                in if ok then
                     (case get_job s' (dict_get j ''id'') of
                        None \<Rightarrow> (Inl TypeError, s')
                      | Some updated \<Rightarrow>
                          (case from_dict e updated of
                             Inl err \<Rightarrow> (Inl err, s')
                           | Inr job \<Rightarrow> (Inr (Some job), s')))
                   else claim_loop e s' js)"

definition claim_next_job :: "env \<Rightarrow> store \<Rightarrow> (error + Job option) \<times> store" where
  "claim_next_job e s = claim_loop e s (list_jobs s None None)"

text \<open>\<^verbatim>\<open>if not updated:\<close> holds for \<^verbatim>\<open>None\<close> and for the empty dict.\<close>

definition complete_job :: "env \<Rightarrow> store \<Rightarrow> string \<Rightarrow> (error + Job) \<times> store" where
  "complete_job e s job_id =
     (case get_job s (JStr job_id) of
        None \<Rightarrow> (Inl KeyError, s)
      | Some updated \<Rightarrow>
          if updated = [] then (Inl KeyError, s)
          else
            let data = dict_update updated
                         [(''state'', JStr ''completed''), (''updated_at'', JStr (utcnow_iso e))]
            in return_job e (update_job s (JStr job_id) data))"

definition opt_field :: "string \<Rightarrow> string option \<Rightarrow> jdict" where
  "opt_field k v = (case v of None \<Rightarrow> [] | Some x \<Rightarrow> [(k, JStr x)])"

definition fail_job ::
  "env \<Rightarrow> store \<Rightarrow> string \<Rightarrow> string option \<Rightarrow> string option \<Rightarrow> string option
     \<Rightarrow> (error + Job) \<times> store" where
  "fail_job e s job_id error_message stdout stderr =
     (case get_job s (JStr job_id) of
        None \<Rightarrow> (Inl KeyError, s)
      | Some job \<Rightarrow>
          if job = [] then (Inl KeyError, s)
          else
            case py_int e (dict_get_default job ''attempts'' (JInt 0)) of
              Inl err \<Rightarrow> (Inl err, s)
            | Inr a \<Rightarrow>
                let attempts = a + 1
                in case py_int e (dict_get_default job ''max_retries'' (JInt (cfg_max_retries e))) of
                     Inl err \<Rightarrow> (Inl err, s)
                   | Inr max_retries \<Rightarrow>
                       let backoff_base = cfg_backoff_base e;
                           msg = JStr (case error_message of None \<Rightarrow> [] | Some m \<Rightarrow> m)
                       in if attempts > max_retries then
                            let payload = [(''state'', JStr ''dead''), (''attempts'', JInt attempts),
                                           (''error_message'', msg),
                                           (''updated_at'', JStr (utcnow_iso e))]
                                          @ opt_field ''stdout'' stdout @ opt_field ''stderr'' stderr
                            in return_job e (update_job s (JStr job_id) payload)
                          else
                            case py_pow backoff_base (attempts - 1) of
                              Inl err \<Rightarrow> (Inl err, s)
                            | Inr delay \<Rightarrow>
                                (case float_add (utcnow_ts e) delay of
                                   Inl err \<Rightarrow> (Inl err, s)
                                 | Inr next_ts \<Rightarrow>
                                     (case iso_of_ts e next_ts of
                                        Inl err \<Rightarrow> (Inl err, s)
                                      | Inr next_iso \<Rightarrow>
                                          let payload = [(''state'', JStr ''scheduled''),
                                                         (''attempts'', JInt attempts),
                                                         (''next_retry_at'', JStr next_iso),
                                                         (''error_message'', msg),
                                                         (''updated_at'', JStr (utcnow_iso e))]
                                                        @ opt_field ''stdout'' stdout
                                                        @ opt_field ''stderr'' stderr
                                          in return_job e (update_job s (JStr job_id) payload))))"

text \<open>
  \<^verbatim>\<open>stats[k] += 1\<close>; the key is always present where the code does this.
\<close>

definition stats_incr :: "string \<Rightarrow> (string \<times> int) list \<Rightarrow> (string \<times> int) list" where
  "stats_incr k stats = (case map_of stats k of None \<Rightarrow> stats | Some c \<Rightarrow> dict_set k (c + 1) stats)"

fun stats_loop :: "(string \<times> int) list \<Rightarrow> jdict list \<Rightarrow> (string \<times> int) list" where
  "stats_loop stats [] = stats"
| "stats_loop stats (j # js) =
     (let s = dict_get j ''state''
      in case s of
           JStr k \<Rightarrow>
             if k \<in> set (map fst stats) then stats_loop (stats_incr k stats) js
             else stats_loop (stats_incr ''failed'' stats) js
         | _ \<Rightarrow> stats_loop (stats_incr ''failed'' stats) js)"

definition get_stats :: "store \<Rightarrow> (string \<times> int) list" where
  "get_stats s =
     (let jobs = list_jobs s None None;
          stats = [(''pending'', 0), (''processing'', 0), (''completed'', 0), (''failed'', 0),
                   (''dead'', 0), (''total'', int (length jobs))]
      in stats_loop stats jobs)"

text \<open>The list comprehension \<^verbatim>\<open>[Job.from_dict(j) for j in jobs]\<close> stops at the first exception.\<close>

fun from_dict_all :: "env \<Rightarrow> jdict list \<Rightarrow> error + Job list" where
  "from_dict_all e [] = Inr []"
| "from_dict_all e (j # js) =
     (case from_dict e j of
        Inl err \<Rightarrow> Inl err
      | Inr job \<Rightarrow> (case from_dict_all e js of Inl err \<Rightarrow> Inl err | Inr jobs \<Rightarrow> Inr (job # jobs)))"

definition qm_list_jobs :: "env \<Rightarrow> store \<Rightarrow> string option \<Rightarrow> int \<Rightarrow> error + Job list" where
  "qm_list_jobs e s state limit = from_dict_all e (list_jobs s (Some limit) state)"

definition list_dlq_jobs :: "env \<Rightarrow> store \<Rightarrow> int \<Rightarrow> error + Job list" where
  "list_dlq_jobs e s limit = qm_list_jobs e s (Some ''dead'') limit"

definition retry_dlq_job :: "env \<Rightarrow> store \<Rightarrow> string \<Rightarrow> (error + Job) \<times> store" where
  "retry_dlq_job e s job_id =
     (case get_job s (JStr job_id) of
        None \<Rightarrow> (Inl (ValueError ''Job not found''), s)
      | Some job \<Rightarrow>
          if job = [] then (Inl (ValueError ''Job not found''), s)
          else if \<not> py_eq (dict_get job ''state'') (JStr ''dead'')
          then (Inl (ValueError ''Job is not in Dead Letter Queue''), s)
          else
            return_job e (update_job s (JStr job_id)
              [(''state'', JStr ''pending''), (''attempts'', JInt 0),
               (''error_message'', JNull), (''next_retry_at'', JNull),
               (''updated_at'', JStr (utcnow_iso e))]))"

section \<open>Notions used to state the claims\<close>

text \<open>
  A loop that makes up to \<open>n\<close> attempts to write persists its result when one of the next
  \<open>n\<close> write outcomes is a success.
\<close>

fun write_succeeds :: "nat \<Rightarrow> bool list \<Rightarrow> bool" where
  "write_succeeds 0 ws = False"
| "write_succeeds (Suc n) [] = True"
| "write_succeeds (Suc n) (w # ws) = (w \<or> write_succeeds n ws)"

text \<open>
  The record a successful compare-and-transition stores, in the words of the specification:
  the state is set to the new state, the extra fields are merged, \<^verbatim>\<open>updated_at\<close> is
  refreshed.
\<close>

definition cas_record :: "env \<Rightarrow> jdict \<Rightarrow> jval \<Rightarrow> jdict \<Rightarrow> jdict" where
  "cas_record e j to_state extra =
     dict_set ''updated_at'' (JStr (gmtime_str e)) (dict_update (dict_set ''state'' to_state j) extra)"

text \<open>
  A concrete environment and concrete records, for the examples: the default
  configuration on a machine in UTC at 2026-01-01T00:01:40Z (1767225700 seconds after the
  epoch). Its \<open>iso_of_ts\<close> raises outside the years 1..9999 as \<^verbatim>\<open>fromtimestamp\<close> does and
  formats the two instants the examples store.
\<close>

definition demo_env :: env where
  "demo_env = \<lparr>cfg_max_retries = 3, cfg_backoff_base = 2, now_ts = 1767225700, utc_offset = 0,
     utcnow_iso = ''2026-01-01T00:01:40Z'', gmtime_str = ''2026-01-01T00:01:40Z'',
     iso_of_ts = (\<lambda>t. if t < - 62135596800 \<or> 253402300800 \<le> t
                        then Inl (ValueError ''year is out of range'')
                        else if t = 1767225701 then Inr ''2026-01-01T00:01:41+00:00''
                        else if t = 1767205901 then Inr ''2025-12-31T18:31:41+00:00''
                        else Inr ''1970-01-01T00:00:00+00:00''),
     ts_of_iso = (\<lambda>s. if s = ''2026-01-01T00:01:41+00:00'' then Some 1767225701 else None),
     int_of_str = (\<lambda>s. None)\<rparr>"

definition demo_job :: "string \<Rightarrow> string \<Rightarrow> int \<Rightarrow> int \<Rightarrow> jdict" where
  "demo_job job_id state attempts max_retries =
     [(''id'', JStr job_id), (''command'', JStr ''echo hi''), (''state'', JStr state),
      (''attempts'', JInt attempts), (''max_retries'', JInt max_retries),
      (''created_at'', JStr ''2026-01-01T00:00:00Z''),
      (''updated_at'', JStr ''2026-01-01T00:00:00Z''),
      (''error_message'', JNull), (''next_retry_at'', JNull)]"

text \<open>What the store holds in field \<open>k\<close> of the first record with the given id.\<close>

definition stored_field :: "store \<Rightarrow> jval \<Rightarrow> string \<Rightarrow> jval option" where
  "stored_field s job_id k = map_option (\<lambda>j. dict_get j k) (get_job s job_id)"

definition demo_store :: "jdict list \<Rightarrow> store" where
  "demo_store js = \<lparr>disk = Doc js, writes = []\<rparr>"

text \<open>The filter of \<^verbatim>\<open>list_jobs\<close>: no filter matches every job, a state matches the jobs in it.\<close>

definition matches_state :: "string option \<Rightarrow> jdict \<Rightarrow> bool" where
  "matches_state state j = (case state of None \<Rightarrow> True | Some st \<Rightarrow> dict_get j ''state'' = JStr st)"

text \<open>The record that \<^verbatim>\<open>fail_job\<close> leaves behind for a first failure with captured output.\<close>

definition demo_failed_job :: jdict where
  "demo_failed_job =
     [(''id'', JStr ''t1''), (''command'', JStr ''echo hi''), (''state'', JStr ''scheduled''),
      (''attempts'', JInt 1), (''max_retries'', JInt 3),
      (''created_at'', JStr ''2026-01-01T00:00:00Z''),
      (''updated_at'', JStr ''2026-01-01T00:01:40Z''),
      (''error_message'', JStr ''boom''),
      (''next_retry_at'', JStr ''2026-01-01T00:01:41+00:00''),
      (''stdout'', JStr ''out''), (''stderr'', JStr ''err'')]"

text \<open>
  The read paths from the outcome of \<^verbatim>\<open>json.load\<close> on: an exception that leaves \<^verbatim>\<open>_read\<close>
  leaves the operation, otherwise the operation runs on the file \<^verbatim>\<open>_read\<close> returned.
\<close>

definition list_jobs_on :: "json_load \<Rightarrow> int option \<Rightarrow> string option \<Rightarrow> error + jdict list" where
  "list_jobs_on l limit state =
     (case file_of_load l of
        Inl err \<Rightarrow> Inl err
      | Inr d \<Rightarrow> Inr (list_jobs \<lparr>disk = d, writes = []\<rparr> limit state))"

definition get_job_on :: "json_load \<Rightarrow> jval \<Rightarrow> error + jdict option" where
  "get_job_on l job_id =
     (case file_of_load l of
        Inl err \<Rightarrow> Inl err
      | Inr d \<Rightarrow> Inr (get_job \<lparr>disk = d, writes = []\<rparr> job_id))"

definition get_stats_on :: "json_load \<Rightarrow> error + (string \<times> int) list" where
  "get_stats_on l =
     (case file_of_load l of
        Inl err \<Rightarrow> Inl err
      | Inr d \<Rightarrow> Inr (get_stats \<lparr>disk = d, writes = []\<rparr>))"

text \<open>
  Sequences of queue operations. Each operation comes with the environment it runs in;
  \<open>step\<close> keeps the store an operation leaves behind, whether it returns or raises.
\<close>

datatype op =
    Enqueue string string "int option" "rat option"
  | ClaimNext
  | Complete string
  | Fail string "string option" "string option" "string option"
  | RetryDlq string

fun step :: "env \<Rightarrow> op \<Rightarrow> store \<Rightarrow> store" where
  "step e (Enqueue job_id command max_retries run_at) s =
     snd (enqueue e s job_id command max_retries run_at)"
| "step e ClaimNext s = snd (claim_next_job e s)"
| "step e (Complete job_id) s = snd (complete_job e s job_id)"
| "step e (Fail job_id error_message stdout stderr) s =
     snd (fail_job e s job_id error_message stdout stderr)"
| "step e (RetryDlq job_id) s = snd (retry_dlq_job e s job_id)"

fun run :: "(env \<times> op) list \<Rightarrow> store \<Rightarrow> store" where
  "run [] s = s"
| "run ((e, x) # rest) s = run rest (step e x s)"

text \<open>An enqueue is well-formed when the retry budget it sets is not negative.\<close>

fun op_ok :: "env \<times> op \<Rightarrow> bool" where
  "op_ok (e, Enqueue job_id command max_retries run_at) =
     (0 \<le> (case max_retries of None \<Rightarrow> cfg_max_retries e | Some m \<Rightarrow> m))"
| "op_ok (e, x) = True"

definition int_field :: "jdict \<Rightarrow> string \<Rightarrow> int option" where
  "int_field r k = (case map_of r k of Some (JInt n) \<Rightarrow> Some n | _ \<Rightarrow> None)"

definition str_field :: "jdict \<Rightarrow> string \<Rightarrow> string option" where
  "str_field r k = (case map_of r k of Some (JStr x) \<Rightarrow> Some x | _ \<Rightarrow> None)"

text \<open>
  The invariant of a record: integer attempts and budget, both non-negative, a state
  among the five the operations write, and attempts within the budget unless the state
  is \<^verbatim>\<open>dead\<close> or \<^verbatim>\<open>completed\<close>.
\<close>

definition budget_ok :: "int \<Rightarrow> int \<Rightarrow> string \<Rightarrow> bool" where
  "budget_ok a m st =
     (0 \<le> a \<and> 0 \<le> m
      \<and> st \<in> set [''pending'', ''scheduled'', ''processing'', ''completed'', ''dead'']
      \<and> (st \<noteq> ''dead'' \<and> st \<noteq> ''completed'' \<longrightarrow> a \<le> m))"

definition within_budget :: "jdict \<Rightarrow> bool" where
  "within_budget r =
     (distinct (map fst r) \<and>
      (case (int_field r ''attempts'', int_field r ''max_retries'', str_field r ''state'') of
         (Some a, Some m, Some st) \<Rightarrow> budget_ok a m st
       | _ \<Rightarrow> False))"

definition dead_at :: "jdict list \<Rightarrow> nat \<Rightarrow> bool" where
  "dead_at js i = (i < length js \<and> dict_get (js ! i) ''state'' = JStr ''dead'')"

text \<open>
  The operation is a \<^verbatim>\<open>fail\<close> that reaches record \<open>i\<close>, pushes its attempts above its
  budget, and whose write succeeds.
\<close>

fun fail_exhausts :: "store \<Rightarrow> op \<Rightarrow> nat \<Rightarrow> bool" where
  "fail_exhausts s (Fail job_id error_message stdout stderr) i =
     (find_idx (JStr job_id) (storage_read s) = Some i
      \<and> (case (int_field (storage_read s ! i) ''attempts'',
                int_field (storage_read s ! i) ''max_retries'') of
            (Some a, Some m) \<Rightarrow> a + 1 > m
          | _ \<Rightarrow> False)
      \<and> write_succeeds 3 (writes s))"
| "fail_exhausts s x i = False"

section \<open>Facts about dictionaries and the store\<close>

lemma map_of_dict_set: "map_of (dict_set k v d) = (map_of d)(k \<mapsto> v)"
  by (induction d) auto

lemma dict_get_dict_set: "dict_get (dict_set k v d) k' = (if k' = k then v else dict_get d k')"
  by (simp add: dict_get_def map_of_dict_set)

lemma dict_get_default_dict_set:
  "dict_get_default (dict_set k v d) k' x = (if k' = k then v else dict_get_default d k' x)"
  by (simp add: dict_get_default_def map_of_dict_set)

lemma keys_dict_set: "set (map fst (dict_set k v d)) = insert k (set (map fst d))"
  by (induction d) auto

lemma distinct_dict_set: "distinct (map fst d) \<Longrightarrow> distinct (map fst (dict_set k v d))"
  by (induction d) (auto simp: keys_dict_set[simplified])

lemma dict_update_Nil: "dict_update d [] = d"
  by (simp add: dict_update_def)

lemma dict_update_Cons: "dict_update d ((k, v) # u) = dict_update (dict_set k v d) u"
  by (simp add: dict_update_def)

lemma dict_update_append: "dict_update d (u @ w) = dict_update (dict_update d u) w"
  by (simp add: dict_update_def)

lemma distinct_dict_update: "distinct (map fst d) \<Longrightarrow> distinct (map fst (dict_update d u))"
  by (induction u arbitrary: d) (auto simp: dict_update_Nil dict_update_Cons distinct_dict_set)

lemma map_of_dict_update_distinct:
  "distinct (map fst u) \<Longrightarrow> map_of (dict_update d u) = map_of d ++ map_of u"
proof (induction u arbitrary: d)
  case Nil
  then show ?case by (simp add: dict_update_Nil)
next
  case (Cons p u)
  obtain k v where p: "p = (k, v)" by (cases p)
  from Cons.prems p have k: "k \<notin> fst ` set u" and d: "distinct (map fst u)" by auto
  have none: "map_of u k = None" using k by (simp add: map_of_eq_None_iff)
  have "map_of (dict_update d (p # u)) = (map_of d)(k \<mapsto> v) ++ map_of u"
    by (simp only: p dict_update_Cons Cons.IH[OF d] map_of_dict_set)
  also have "\<dots> = map_of d ++ map_of (p # u)"
    using none by (auto simp: p map_add_def fun_eq_iff split: option.splits)
  finally show ?case .
qed

lemma find_idx_SomeD:
  "find_idx jid js = Some i \<Longrightarrow> i < length js \<and> py_eq (dict_get (js ! i) ''id'') jid"
  by (induction js arbitrary: i) (auto split: if_splits)

lemma find_job_find_idx: "find_job jid js = map_option (\<lambda>i. js ! i) (find_idx jid js)"
  by (induction js) (auto simp: option.map_comp comp_def)

lemma find_idx_update_other:
  "find_idx jid js = Some i \<Longrightarrow> py_eq (dict_get r ''id'') jid \<Longrightarrow> find_idx jid (js[i := r]) = Some i"
  by (induction js arbitrary: i) (auto split: if_splits)

lemma storage_read_writes [simp]: "storage_read (s\<lparr>writes := ws\<rparr>) = storage_read s"
  by (simp add: storage_read_def)

lemma storage_read_Doc [simp]: "storage_read (s\<lparr>disk := Doc js\<rparr>) = js"
  by (simp add: storage_read_def)

lemma update_job_loop_missing:
  "find_idx jid (storage_read s) = None \<Longrightarrow> update_job_loop (Suc n) s jid u = (Inl KeyError, s)"
  by simp

lemma update_job_loop_found:
  assumes "find_idx jid (storage_read s) = Some i"
  shows "fst (update_job_loop n s jid u) =
           (if write_succeeds n (writes s) then Inr (dict_update (storage_read s ! i) u)
            else Inl RuntimeError)
       \<and> disk (snd (update_job_loop n s jid u)) =
           (if write_succeeds n (writes s)
            then Doc ((storage_read s)[i := dict_update (storage_read s ! i) u])
            else disk s)"
  using assms
proof (induction n arbitrary: s)
  case 0
  then show ?case by simp
next
  case (Suc n)
  from Suc.prems have len: "i < length (storage_read s)" by (auto dest: find_idx_SomeD)
  show ?case
  proof (cases "writes s")
    case Nil
    then show ?thesis using Suc.prems len by (simp add: write_atomic_def Let_def)
  next
    case (Cons w ws)
    show ?thesis
    proof (cases w)
      case True
      then show ?thesis using Suc.prems len Cons by (simp add: write_atomic_def Let_def)
    next
      case False
      have "find_idx jid (storage_read (s\<lparr>writes := ws\<rparr>)) = Some i" using Suc.prems by simp
      from Suc.IH[OF this] show ?thesis using Suc.prems Cons False
        by (simp add: write_atomic_def Let_def)
    qed
  qed
qed

lemma cas_loop_missing:
  "find_idx jid (storage_read s) = None \<Longrightarrow>
   atomic_state_transition_loop n e s jid from_state to_state extra = (False, s)"
  by (cases n) simp_all

lemma cas_loop_mismatch:
  "find_idx jid (storage_read s) = Some i \<Longrightarrow>
   \<not> py_eq (dict_get (storage_read s ! i) ''state'') from_state \<Longrightarrow>
   atomic_state_transition_loop n e s jid from_state to_state extra = (False, s)"
  by (cases n) simp_all

lemma cas_loop_match:
  assumes "find_idx jid (storage_read s) = Some i"
    and "py_eq (dict_get (storage_read s ! i) ''state'') from_state"
  shows "fst (atomic_state_transition_loop n e s jid from_state to_state extra) =
           write_succeeds n (writes s)
       \<and> disk (snd (atomic_state_transition_loop n e s jid from_state to_state extra)) =
           (if write_succeeds n (writes s)
            then Doc ((storage_read s)[i := cas_record e (storage_read s ! i) to_state extra])
            else disk s)"
  using assms
proof (induction n arbitrary: s)
  case 0
  then show ?case by simp
next
  case (Suc n)
  show ?case
  proof (cases "writes s")
    case Nil
    then show ?thesis using Suc.prems
      by (simp add: write_atomic_def Let_def cas_record_def dict_update_Cons dict_update_Nil)
  next
    case (Cons w ws)
    show ?thesis
    proof (cases w)
      case True
      then show ?thesis using Suc.prems Cons
        by (simp add: write_atomic_def Let_def cas_record_def dict_update_Cons dict_update_Nil)
    next
      case False
      have a: "find_idx jid (storage_read (s\<lparr>writes := ws\<rparr>)) = Some i" using Suc.prems by simp
      have b: "py_eq (dict_get (storage_read (s\<lparr>writes := ws\<rparr>) ! i) ''state'') from_state"
        using Suc.prems by simp
      from Suc.IH[OF a b] show ?thesis using Suc.prems Cons False
        by (simp add: write_atomic_def Let_def)
    qed
  qed
qed

lemma py_eq_JStr [simp]: "py_eq x (JStr k) = (x = JStr k)"
  by (cases x) auto

lemma list_jobs_all: "list_jobs s None None = storage_read s"
  by (simp add: list_jobs_def)

lemma map_of_dict_update_other:
  "k \<notin> fst ` set u \<Longrightarrow> map_of (dict_update d u) k = map_of d k"
  by (induction u arbitrary: d) (auto simp: dict_update_Nil dict_update_Cons map_of_dict_set)

lemma dict_get_dict_update_other:
  "k \<notin> fst ` set u \<Longrightarrow> dict_get (dict_update d u) k = dict_get d k"
  by (simp add: dict_get_def map_of_dict_update_other)

lemma dict_get_dict_update_distinct:
  "distinct (map fst u) \<Longrightarrow>
   dict_get (dict_update d u) k = (case map_of u k of None \<Rightarrow> dict_get d k | Some v \<Rightarrow> v)"
  by (simp add: dict_get_def map_of_dict_update_distinct map_add_def split: option.splits)

lemma find_job_update_same:
  "find_idx jid js = Some i \<Longrightarrow> py_eq (dict_get r ''id'') jid \<Longrightarrow> find_job jid (js[i := r]) = Some r"
  using find_idx_update_other[of jid js i r] find_idx_SomeD[of jid js i]
  by (simp add: find_job_find_idx)

lemma get_job_SomeD:
  "get_job s jid = Some j \<Longrightarrow> \<exists>i. find_idx jid (storage_read s) = Some i \<and> storage_read s ! i = j"
  by (auto simp: get_job_def find_job_find_idx)

lemma get_job_None_iff: "get_job s jid = None \<longleftrightarrow> find_idx jid (storage_read s) = None"
  by (simp add: get_job_def find_job_find_idx)

lemma get_job_nonempty: "get_job s (JStr k) = Some j \<Longrightarrow> j \<noteq> []"
proof
  assume g: "get_job s (JStr k) = Some j" and e: "j = []"
  from get_job_SomeD[OF g] obtain i where "find_idx (JStr k) (storage_read s) = Some i"
    and "storage_read s ! i = j" by blast
  then have "py_eq (dict_get j ''id'') (JStr k)" using find_idx_SomeD by blast
  then show False using e by (simp add: dict_get_def)
qed

lemma update_job_existing:
  assumes "get_job s jid = Some j"
  shows "fst (update_job s jid u) =
           (if write_succeeds 3 (writes s) then Inr (dict_update j u) else Inl RuntimeError)"
    and "\<not> write_succeeds 3 (writes s) \<Longrightarrow> disk (snd (update_job s jid u)) = disk s"
    and "write_succeeds 3 (writes s) \<Longrightarrow> py_eq (dict_get (dict_update j u) ''id'') jid \<Longrightarrow>
         get_job (snd (update_job s jid u)) jid = Some (dict_update j u)"
proof -
  from get_job_SomeD[OF assms] obtain i where i: "find_idx jid (storage_read s) = Some i"
    and j: "storage_read s ! i = j" by blast
  note f = update_job_loop_found[OF i, of 3 u, unfolded j]
  show "fst (update_job s jid u) =
           (if write_succeeds 3 (writes s) then Inr (dict_update j u) else Inl RuntimeError)"
    using f by (simp add: update_job_def)
  show "\<not> write_succeeds 3 (writes s) \<Longrightarrow> disk (snd (update_job s jid u)) = disk s"
    using f by (simp add: update_job_def)
  show "get_job (snd (update_job s jid u)) jid = Some (dict_update j u)"
    if "write_succeeds 3 (writes s)" and "py_eq (dict_get (dict_update j u) ''id'') jid"
  proof -
    have "disk (snd (update_job s jid u)) = Doc ((storage_read s)[i := dict_update j u])"
      using f that(1) by (simp add: update_job_def)
    then have "storage_read (snd (update_job s jid u)) = (storage_read s)[i := dict_update j u]"
      by (simp add: storage_read_def)
    then show ?thesis using find_job_update_same[OF i that(2)] by (simp add: get_job_def)
  qed
qed

lemma from_dict_error: "from_dict e d = Inl err \<Longrightarrow> err = TypeError"
  by (auto simp: from_dict_def Job_init_def Let_def split: if_splits option.splits prod.splits)

lemma return_job_simps:
  "fst (return_job e rs) = (case fst rs of Inl err \<Rightarrow> Inl err | Inr u \<Rightarrow> from_dict e u)"
  "snd (return_job e rs) = snd rs"
  by (auto simp: return_job_def split: sum.splits)

subsection \<open>The budget invariant, operation by operation\<close>

lemma int_field_Some: "int_field r k = Some n \<longleftrightarrow> map_of r k = Some (JInt n)"
  by (simp add: int_field_def split: option.splits jval.splits)

lemma str_field_Some: "str_field r k = Some x \<longleftrightarrow> map_of r k = Some (JStr x)"
  by (simp add: str_field_def split: option.splits jval.splits)

lemma within_budget_iff:
  "within_budget r \<longleftrightarrow>
     distinct (map fst r) \<and>
     (\<exists>a m st. map_of r ''attempts'' = Some (JInt a) \<and> map_of r ''max_retries'' = Some (JInt m)
        \<and> map_of r ''state'' = Some (JStr st) \<and> budget_ok a m st)"
proof -
  have "(case (int_field r ''attempts'', int_field r ''max_retries'', str_field r ''state'') of
         (Some a, Some m, Some st) \<Rightarrow> budget_ok a m st
       | _ \<Rightarrow> False)
     \<longleftrightarrow> (\<exists>a m st. int_field r ''attempts'' = Some a \<and> int_field r ''max_retries'' = Some m
        \<and> str_field r ''state'' = Some st \<and> budget_ok a m st)"
    by (cases "int_field r ''attempts''"; cases "int_field r ''max_retries''";
        cases "str_field r ''state''") simp_all
  then show ?thesis unfolding within_budget_def int_field_Some str_field_Some by simp
qed

lemma within_budget_merge:
  assumes "distinct (map fst r)" and "distinct (map fst u)"
    and "(map_of r ++ map_of u) ''attempts'' = Some (JInt a)"
    and "(map_of r ++ map_of u) ''max_retries'' = Some (JInt m)"
    and "(map_of r ++ map_of u) ''state'' = Some (JStr st)"
    and "budget_ok a m st"
  shows "within_budget (dict_update r u)"
proof -
  have "distinct (map fst (dict_update r u))" by (rule distinct_dict_update[OF assms(1)])
  moreover have "\<exists>a m st. (map_of r ++ map_of u) ''attempts'' = Some (JInt a)
        \<and> (map_of r ++ map_of u) ''max_retries'' = Some (JInt m)
        \<and> (map_of r ++ map_of u) ''state'' = Some (JStr st) \<and> budget_ok a m st"
    by (rule exI[of _ a], rule exI[of _ m], rule exI[of _ st]) (simp add: assms(3-6))
  ultimately show ?thesis
    unfolding within_budget_iff map_of_dict_update_distinct[OF assms(2)] by simp
qed

lemma within_budgetD:
  assumes "within_budget r"
  obtains a m st where "distinct (map fst r)" "map_of r ''attempts'' = Some (JInt a)"
    "map_of r ''max_retries'' = Some (JInt m)" "map_of r ''state'' = Some (JStr st)"
    "budget_ok a m st"
  using assms unfolding within_budget_iff by blast

lemma list_all_update:
  "list_all P js \<Longrightarrow> P r \<Longrightarrow> list_all P (js[i := r])"
  unfolding list_all_iff using set_update_subset_insert[of js i r] by blast

lemma dead_at_update:
  "i < length js \<Longrightarrow>
   dead_at (js[i := r]) k = (if k = i then dict_get r ''state'' = JStr ''dead'' else dead_at js k)"
  by (auto simp: dead_at_def)

lemma dead_at_append:
  "dead_at (js @ [r]) k =
     (if k = length js then dict_get r ''state'' = JStr ''dead'' else dead_at js k)"
  by (auto simp: dead_at_def nth_append)

lemma dict_get_merge:
  "distinct (map fst u) \<Longrightarrow>
   dict_get (dict_update r u) k = (case (map_of r ++ map_of u) k of None \<Rightarrow> JNull | Some v \<Rightarrow> v)"
  by (simp add: dict_get_def map_of_dict_update_distinct)

lemma budget_ok_nonneg: "budget_ok a m st \<Longrightarrow> 0 \<le> a \<and> 0 \<le> m"
  by (simp add: budget_ok_def)

lemma budget_ok_dead: "0 \<le> a \<Longrightarrow> 0 \<le> m \<Longrightarrow> budget_ok a m ''dead''"
  by (simp add: budget_ok_def)

lemma budget_ok_completed: "0 \<le> a \<Longrightarrow> 0 \<le> m \<Longrightarrow> budget_ok a m ''completed''"
  by (simp add: budget_ok_def)

lemma budget_ok_pending: "0 \<le> a \<Longrightarrow> a \<le> m \<Longrightarrow> budget_ok a m ''pending''"
  by (simp add: budget_ok_def)

lemma budget_ok_scheduled: "0 \<le> a \<Longrightarrow> a \<le> m \<Longrightarrow> budget_ok a m ''scheduled''"
  by (simp add: budget_ok_def)

lemma budget_ok_processing: "0 \<le> a \<Longrightarrow> a \<le> m \<Longrightarrow> budget_ok a m ''processing''"
  by (simp add: budget_ok_def)

lemma budget_ok_claimable:
  "budget_ok a m st \<Longrightarrow> st = ''pending'' \<or> st = ''scheduled'' \<Longrightarrow> a \<le> m"
  by (auto simp: budget_ok_def)

lemma retry_record:
  assumes "within_budget r"
  shows "within_budget (dict_update r [(''state'', JStr ''pending''), (''attempts'', JInt 0),
               (''error_message'', JNull), (''next_retry_at'', JNull), (''updated_at'', JStr t)])"
    and "dict_get (dict_update r [(''state'', JStr ''pending''), (''attempts'', JInt 0),
               (''error_message'', JNull), (''next_retry_at'', JNull), (''updated_at'', JStr t)])
           ''state'' = JStr ''pending''"
proof -
  from assms obtain a m st where d: "distinct (map fst r)"
    and m: "map_of r ''max_retries'' = Some (JInt m)" and b: "budget_ok a m st"
    by (rule within_budgetD)
  have b': "budget_ok 0 m ''pending''" using budget_ok_nonneg[OF b] by (simp add: budget_ok_pending)
  show "within_budget (dict_update r [(''state'', JStr ''pending''), (''attempts'', JInt 0),
               (''error_message'', JNull), (''next_retry_at'', JNull), (''updated_at'', JStr t)])"
    by (rule within_budget_merge[OF d _ _ _ _ b']) (simp_all add: m map_add_def)
  show "dict_get (dict_update r [(''state'', JStr ''pending''), (''attempts'', JInt 0),
               (''error_message'', JNull), (''next_retry_at'', JNull), (''updated_at'', JStr t)])
           ''state'' = JStr ''pending''"
    by (simp add: dict_get_merge map_add_def)
qed

lemma opt_field_keys:
  "map_of (opt_field ''stdout'' so @ opt_field ''stderr'' se) k = Some v \<Longrightarrow>
     k = ''stdout'' \<or> k = ''stderr''"
  by (auto simp: opt_field_def split: option.splits if_splits)

lemma opt_field_distinct: "distinct (map fst (opt_field ''stdout'' so @ opt_field ''stderr'' se))"
  by (simp add: opt_field_def split: option.splits)

lemma opt_field_none:
  "k \<noteq> ''stdout'' \<Longrightarrow> k \<noteq> ''stderr'' \<Longrightarrow>
   map_of (opt_field ''stdout'' so @ opt_field ''stderr'' se) k = None"
  using opt_field_keys[of so se k] by (cases "map_of (opt_field ''stdout'' so @ opt_field ''stderr'' se) k") auto

lemma payload_lookup:
  "k \<noteq> ''stdout'' \<Longrightarrow> k \<noteq> ''stderr'' \<Longrightarrow>
   map_of (base @ opt_field ''stdout'' so @ opt_field ''stderr'' se) k = map_of base k"
  using opt_field_none[of k so se]
  by (simp add: map_add_def split: option.splits)

lemma fail_dead_record:
  assumes "within_budget r" and "0 \<le> k"
  shows "within_budget (dict_update r ([(''state'', JStr ''dead''), (''attempts'', JInt k),
               (''error_message'', msg), (''updated_at'', JStr t)]
               @ opt_field ''stdout'' so @ opt_field ''stderr'' se))"
    and "dict_get (dict_update r ([(''state'', JStr ''dead''), (''attempts'', JInt k),
               (''error_message'', msg), (''updated_at'', JStr t)]
               @ opt_field ''stdout'' so @ opt_field ''stderr'' se)) ''state'' = JStr ''dead''"
proof -
  define u where "u = [(''state'', JStr ''dead''), (''attempts'', JInt k),
               (''error_message'', msg), (''updated_at'', JStr t)]
               @ opt_field ''stdout'' so @ opt_field ''stderr'' se"
  from assms(1) obtain a m st where d: "distinct (map fst r)"
    and m: "map_of r ''max_retries'' = Some (JInt m)" and b: "budget_ok a m st"
    by (rule within_budgetD)
  have b': "budget_ok k m ''dead''" using budget_ok_nonneg[OF b] assms(2) by (simp add: budget_ok_dead)
  have du: "distinct (map fst u)"
    by (simp add: u_def opt_field_def split: option.splits)
  have l: "map_of u ''state'' = Some (JStr ''dead'')" "map_of u ''attempts'' = Some (JInt k)"
    "map_of u ''max_retries'' = None"
    unfolding u_def by (simp_all add: opt_field_def split: option.splits)
  have "within_budget (dict_update r u)"
    by (rule within_budget_merge[OF d du _ _ _ b']) (simp_all add: map_add_def l m)
  then show "within_budget (dict_update r ([(''state'', JStr ''dead''), (''attempts'', JInt k),
               (''error_message'', msg), (''updated_at'', JStr t)]
               @ opt_field ''stdout'' so @ opt_field ''stderr'' se))"
    by (simp only: u_def)
  have "dict_get (dict_update r u) ''state'' = JStr ''dead''"
    by (simp add: dict_get_merge[OF du] map_add_def l)
  then show "dict_get (dict_update r ([(''state'', JStr ''dead''), (''attempts'', JInt k),
               (''error_message'', msg), (''updated_at'', JStr t)]
               @ opt_field ''stdout'' so @ opt_field ''stderr'' se)) ''state'' = JStr ''dead''"
    by (simp only: u_def)
qed

lemma fail_scheduled_record:
  assumes "within_budget r" and "0 \<le> k" and "map_of r ''max_retries'' = Some (JInt m)" and "k \<le> m"
  shows "within_budget (dict_update r ([(''state'', JStr ''scheduled''), (''attempts'', JInt k),
               (''next_retry_at'', nx), (''error_message'', msg), (''updated_at'', JStr t)]
               @ opt_field ''stdout'' so @ opt_field ''stderr'' se))"
    and "dict_get (dict_update r ([(''state'', JStr ''scheduled''), (''attempts'', JInt k),
               (''next_retry_at'', nx), (''error_message'', msg), (''updated_at'', JStr t)]
               @ opt_field ''stdout'' so @ opt_field ''stderr'' se)) ''state'' = JStr ''scheduled''"
proof -
  define u where "u = [(''state'', JStr ''scheduled''), (''attempts'', JInt k),
               (''next_retry_at'', nx), (''error_message'', msg), (''updated_at'', JStr t)]
               @ opt_field ''stdout'' so @ opt_field ''stderr'' se"
  from assms(1) have d: "distinct (map fst r)" by (rule within_budgetD)
  have b': "budget_ok k m ''scheduled''" using assms(2,4) by (simp add: budget_ok_scheduled)
  have du: "distinct (map fst u)"
    by (simp add: u_def opt_field_def split: option.splits)
  have l: "map_of u ''state'' = Some (JStr ''scheduled'')" "map_of u ''attempts'' = Some (JInt k)"
    "map_of u ''max_retries'' = None"
    unfolding u_def by (simp_all add: opt_field_def split: option.splits)
  have "within_budget (dict_update r u)"
    by (rule within_budget_merge[OF d du _ _ _ b']) (simp_all add: map_add_def l assms(3))
  then show "within_budget (dict_update r ([(''state'', JStr ''scheduled''), (''attempts'', JInt k),
               (''next_retry_at'', nx), (''error_message'', msg), (''updated_at'', JStr t)]
               @ opt_field ''stdout'' so @ opt_field ''stderr'' se))"
    by (simp only: u_def)
  have "dict_get (dict_update r u) ''state'' = JStr ''scheduled''"
    by (simp add: dict_get_merge[OF du] map_add_def l)
  then show "dict_get (dict_update r ([(''state'', JStr ''scheduled''), (''attempts'', JInt k),
               (''next_retry_at'', nx), (''error_message'', msg), (''updated_at'', JStr t)]
               @ opt_field ''stdout'' so @ opt_field ''stderr'' se)) ''state'' = JStr ''scheduled''"
    by (simp only: u_def)
qed

lemma complete_record:
  assumes "within_budget r"
  shows "within_budget (dict_update r (dict_update r
            [(''state'', JStr ''completed''), (''updated_at'', JStr t)]))"
    and "dict_get (dict_update r (dict_update r
            [(''state'', JStr ''completed''), (''updated_at'', JStr t)])) ''state''
         = JStr ''completed''"
proof -
  define data where "data = dict_update r [(''state'', JStr ''completed''), (''updated_at'', JStr t)]"
  from assms obtain a m st where d: "distinct (map fst r)"
    and f: "map_of r ''attempts'' = Some (JInt a)" "map_of r ''max_retries'' = Some (JInt m)"
    and b: "budget_ok a m st"
    by (rule within_budgetD)
  have b': "budget_ok a m ''completed''" using budget_ok_nonneg[OF b] by (simp add: budget_ok_completed)
  have dd: "distinct (map fst data)" using d by (simp add: data_def distinct_dict_update)
  have md: "map_of data = (map_of r)(''state'' \<mapsto> JStr ''completed'', ''updated_at'' \<mapsto> JStr t)"
    by (simp add: data_def dict_update_Cons dict_update_Nil map_of_dict_set)
  have "within_budget (dict_update r data)"
    by (rule within_budget_merge[OF d dd _ _ _ b']) (simp_all add: md f map_add_def)
  then show "within_budget (dict_update r (dict_update r
            [(''state'', JStr ''completed''), (''updated_at'', JStr t)]))"
    by (simp only: data_def)
  have "dict_get (dict_update r data) ''state'' = JStr ''completed''"
    unfolding dict_get_merge[OF dd] by (simp add: md map_add_def)
  then show "dict_get (dict_update r (dict_update r
            [(''state'', JStr ''completed''), (''updated_at'', JStr t)])) ''state''
         = JStr ''completed''"
    by (simp only: data_def)
qed

lemma claim_record:
  assumes "within_budget r"
    and "dict_get r ''state'' = JStr ''pending'' \<or> dict_get r ''state'' = JStr ''scheduled''"
  shows "within_budget (cas_record e r (JStr ''processing'') [])"
    and "dict_get (cas_record e r (JStr ''processing'') []) ''state'' = JStr ''processing''"
proof -
  from assms(1) obtain a m st where d: "distinct (map fst r)"
    and f: "map_of r ''attempts'' = Some (JInt a)" "map_of r ''max_retries'' = Some (JInt m)"
      "map_of r ''state'' = Some (JStr st)"
    and b: "budget_ok a m st"
    by (rule within_budgetD)
  from assms(2) f(3) have "st = ''pending'' \<or> st = ''scheduled''" by (simp add: dict_get_def)
  then have "a \<le> m" using b by (rule budget_ok_claimable[rotated])
  then have b': "budget_ok a m ''processing''"
    using budget_ok_nonneg[OF b] by (simp add: budget_ok_processing)
  have c: "cas_record e r (JStr ''processing'') []
             = dict_update r [(''state'', JStr ''processing''), (''updated_at'', JStr (gmtime_str e))]"
    by (simp add: cas_record_def dict_update_Nil dict_update_Cons)
  show "within_budget (cas_record e r (JStr ''processing'') [])"
    unfolding c by (rule within_budget_merge[OF d _ _ _ _ b']) (simp_all add: f map_add_def)
  show "dict_get (cas_record e r (JStr ''processing'') []) ''state'' = JStr ''processing''"
    unfolding c by (simp add: dict_get_merge map_add_def)
qed

lemma enqueue_record:
  assumes "0 \<le> m" and "st = ''pending'' \<or> st = ''scheduled''"
  shows "within_budget [(''id'', i), (''command'', c), (''state'', JStr st),
      (''attempts'', JInt 0), (''max_retries'', JInt m),
      (''created_at'', ca), (''updated_at'', ua),
      (''error_message'', em), (''next_retry_at'', nx)]"
    and "dict_get [(''id'', i), (''command'', c), (''state'', JStr st),
      (''attempts'', JInt 0), (''max_retries'', JInt m),
      (''created_at'', ca), (''updated_at'', ua),
      (''error_message'', em), (''next_retry_at'', nx)] ''state'' \<noteq> JStr ''dead''"
proof -
  have b: "budget_ok 0 m st"
    using assms by (auto simp: budget_ok_pending budget_ok_scheduled)
  show "within_budget [(''id'', i), (''command'', c), (''state'', JStr st),
      (''attempts'', JInt 0), (''max_retries'', JInt m),
      (''created_at'', ca), (''updated_at'', ua),
      (''error_message'', em), (''next_retry_at'', nx)]"
    unfolding within_budget_iff
    by (rule conjI, simp, rule exI[of _ 0], rule exI[of _ m], rule exI[of _ st]) (simp add: b)
  show "dict_get [(''id'', i), (''command'', c), (''state'', JStr st),
      (''attempts'', JInt 0), (''max_retries'', JInt m),
      (''created_at'', ca), (''updated_at'', ua),
      (''error_message'', em), (''next_retry_at'', nx)] ''state'' \<noteq> JStr ''dead''"
    using assms(2) by (auto simp: dict_get_def)
qed

lemma create_job_loop_read:
  "storage_read (snd (create_job_loop n s job)) =
     (if write_succeeds n (writes s) then storage_read s @ [job] else storage_read s)"
proof (induction n arbitrary: s)
  case 0
  then show ?case by simp
next
  case (Suc n)
  show ?case
  proof (cases "writes s")
    case Nil
    then show ?thesis by (simp add: write_atomic_def Let_def)
  next
    case (Cons w ws)
    then show ?thesis using Suc.IH[of "s\<lparr>writes := ws\<rparr>"]
      by (cases w) (simp_all add: write_atomic_def Let_def)
  qed
qed

lemma storage_read_disk: "disk s' = disk s \<Longrightarrow> storage_read s' = storage_read s"
  by (simp add: storage_read_def)

lemma storage_read_disk_Doc: "disk s' = Doc js \<Longrightarrow> storage_read s' = js"
  by (simp add: storage_read_def)

lemma storage_read_update_job:
  "storage_read (snd (update_job s jid u)) =
     (case find_idx jid (storage_read s) of
        None \<Rightarrow> storage_read s
      | Some i \<Rightarrow>
          if write_succeeds 3 (writes s)
          then (storage_read s)[i := dict_update (storage_read s ! i) u]
          else storage_read s)"
proof (cases "find_idx jid (storage_read s)")
  case None
  then show ?thesis by (simp add: update_job_def eval_nat_numeral)
next
  case (Some i)
  from update_job_loop_found[OF Some, of 3 u] show ?thesis
    using Some by (auto simp: update_job_def intro: storage_read_disk storage_read_disk_Doc)
qed

lemma storage_read_cas:
  "storage_read (snd (atomic_state_transition e s jid from_state to_state extra)) =
     (case find_idx jid (storage_read s) of
        None \<Rightarrow> storage_read s
      | Some i \<Rightarrow>
          if py_eq (dict_get (storage_read s ! i) ''state'') from_state \<and> write_succeeds 5 (writes s)
          then (storage_read s)
                 [i := cas_record e (storage_read s ! i) to_state
                         (case extra of None \<Rightarrow> [] | Some x \<Rightarrow> x)]
          else storage_read s)"
proof (cases "find_idx jid (storage_read s)")
  case None
  then show ?thesis by (simp add: atomic_state_transition_def cas_loop_missing)
next
  case (Some i)
  show ?thesis
  proof (cases "py_eq (dict_get (storage_read s ! i) ''state'') from_state")
    case True
    from cas_loop_match[OF Some True, of 5 e to_state "case extra of None \<Rightarrow> [] | Some x \<Rightarrow> x"]
    show ?thesis using Some True
      by (auto simp: atomic_state_transition_def intro: storage_read_disk storage_read_disk_Doc)
  next
    case False
    then show ?thesis using Some
      by (simp add: atomic_state_transition_def cas_loop_mismatch)
  qed
qed

text \<open>A table changed in one place, by a record that keeps the invariant.\<close>

lemma table_update:
  assumes "list_all within_budget js" and "within_budget r"
  shows "list_all within_budget (js[i := r])"
  using assms by (rule list_all_update)

lemma table_nth: "list_all P js \<Longrightarrow> i < length js \<Longrightarrow> P (js ! i)"
  by (simp add: list_all_length)

lemma claim_loop_snd:
  "snd (claim_loop e s (j # js)) =
     (if \<not> (dict_get j ''state'' = JStr ''pending'' \<or> dict_get j ''state'' = JStr ''scheduled'')
           \<or> (py_truthy (dict_get j ''next_retry_at'')
               \<and> retry_ts e (dict_get j ''next_retry_at'') > now_ts e)
      then snd (claim_loop e s js)
      else if fst (atomic_state_transition e s (dict_get j ''id'') (dict_get j ''state'')
                     (JStr ''processing'') (Some []))
      then snd (atomic_state_transition e s (dict_get j ''id'') (dict_get j ''state'')
                     (JStr ''processing'') (Some []))
      else snd (claim_loop e
                 (snd (atomic_state_transition e s (dict_get j ''id'') (dict_get j ''state'')
                     (JStr ''processing'') (Some []))) js))"
  by (simp add: Let_def split: prod.splits option.splits sum.splits)

lemma cas_claim_inv:
  assumes "list_all within_budget (storage_read s)"
    and "st = JStr ''pending'' \<or> st = JStr ''scheduled''"
  shows "list_all within_budget
           (storage_read (snd (atomic_state_transition e s jid st (JStr ''processing'') (Some []))))"
    and "dead_at (storage_read (snd (atomic_state_transition e s jid st (JStr ''processing'')
                                        (Some [])))) k
         \<Longrightarrow> dead_at (storage_read s) k"
proof -
  let ?s' = "snd (atomic_state_transition e s jid st (JStr ''processing'') (Some []))"
  have "list_all within_budget (storage_read ?s')
      \<and> (dead_at (storage_read ?s') k \<longrightarrow> dead_at (storage_read s) k)"
  proof (cases "find_idx jid (storage_read s)")
    case None
    then show ?thesis using assms(1) by (simp add: storage_read_cas)
  next
    case (Some i)
    then have len: "i < length (storage_read s)" by (auto dest: find_idx_SomeD)
    show ?thesis
    proof (cases "py_eq (dict_get (storage_read s ! i) ''state'') st \<and> write_succeeds 5 (writes s)")
      case False
      then show ?thesis using assms(1) Some by (auto simp: storage_read_cas)
    next
      case True
      then have stt: "dict_get (storage_read s ! i) ''state'' = JStr ''pending''
                    \<or> dict_get (storage_read s ! i) ''state'' = JStr ''scheduled''"
        using assms(2) by auto
      have wb: "within_budget (storage_read s ! i)" using assms(1) len by (rule table_nth)
      have rd: "storage_read ?s' = (storage_read s)
                  [i := cas_record e (storage_read s ! i) (JStr ''processing'') []]"
        using Some True by (simp add: storage_read_cas)
      show ?thesis unfolding rd
        using table_update[OF assms(1) claim_record(1)[OF wb stt, of e], of i]
          claim_record(2)[OF wb stt, of e]
        by (simp add: dead_at_update[OF len])
    qed
  qed
  then show "list_all within_budget (storage_read ?s')"
    and "dead_at (storage_read ?s') k \<Longrightarrow> dead_at (storage_read s) k"
    by simp_all
qed

lemma claim_loop_inv:
  assumes "list_all within_budget (storage_read s)"
  shows "list_all within_budget (storage_read (snd (claim_loop e s cs)))
       \<and> (\<forall>k. dead_at (storage_read (snd (claim_loop e s cs))) k \<longrightarrow> dead_at (storage_read s) k)"
  using assms
proof (induction cs arbitrary: s)
  case Nil
  then show ?case by simp
next
  case (Cons j cs)
  let ?r = "atomic_state_transition e s (dict_get j ''id'') (dict_get j ''state'')
              (JStr ''processing'') (Some [])"
  show ?case
  proof (cases "\<not> (dict_get j ''state'' = JStr ''pending'' \<or> dict_get j ''state'' = JStr ''scheduled'')
           \<or> (py_truthy (dict_get j ''next_retry_at'')
               \<and> retry_ts e (dict_get j ''next_retry_at'') > now_ts e)")
    case True
    then have "snd (claim_loop e s (j # cs)) = snd (claim_loop e s cs)"
      by (simp only: claim_loop_snd if_True)
    then show ?thesis using Cons.IH[OF Cons.prems] by simp
  next
    case False
    then have st: "dict_get j ''state'' = JStr ''pending'' \<or> dict_get j ''state'' = JStr ''scheduled''"
      by blast
    note c = cas_claim_inv[OF Cons.prems st, of e "dict_get j ''id''"]
    show ?thesis
    proof (cases "fst ?r")
      case True
      then have "snd (claim_loop e s (j # cs)) = snd ?r"
        using False by (simp only: claim_loop_snd if_False if_True)
      then show ?thesis using c by simp
    next
      case nok: False
      then have "snd (claim_loop e s (j # cs)) = snd (claim_loop e (snd ?r) cs)"
        using False by (simp only: claim_loop_snd if_False)
      then show ?thesis using Cons.IH[OF c(1)] c(2) by simp
    qed
  qed
qed

lemma enqueue_dict:
  assumes "0 \<le> m" and "st = ''pending'' \<or> st = ''scheduled''"
  shows "within_budget (to_dict ((post_init e
            \<lparr>j_id = i, j_command = c, j_state = JStr st, j_attempts = JInt 0,
             j_max_retries = JInt m, j_created_at = JNull, j_updated_at = JNull,
             j_error_message = JNull, j_next_retry_at = JNull\<rparr>)\<lparr>j_next_retry_at := nx\<rparr>))"
    and "dict_get (to_dict ((post_init e
            \<lparr>j_id = i, j_command = c, j_state = JStr st, j_attempts = JInt 0,
             j_max_retries = JInt m, j_created_at = JNull, j_updated_at = JNull,
             j_error_message = JNull, j_next_retry_at = JNull\<rparr>)\<lparr>j_next_retry_at := nx\<rparr>))
           ''state'' \<noteq> JStr ''dead''"
  by (simp_all add: to_dict_def post_init_def Let_def enqueue_record[OF assms])

lemma post_init_next_retry:
  "(post_init e
      \<lparr>j_id = i, j_command = c, j_state = st, j_attempts = a,
       j_max_retries = m, j_created_at = JNull, j_updated_at = JNull,
       j_error_message = JNull, j_next_retry_at = JNull\<rparr>)\<lparr>j_next_retry_at := JNull\<rparr>
   = post_init e
      \<lparr>j_id = i, j_command = c, j_state = st, j_attempts = a,
       j_max_retries = m, j_created_at = JNull, j_updated_at = JNull,
       j_error_message = JNull, j_next_retry_at = JNull\<rparr>"
  by (simp add: post_init_def Let_def)

lemma create_job_read:
  "storage_read (snd (return_job e (create_job s d))) = storage_read s
   \<or> storage_read (snd (return_job e (create_job s d))) = storage_read s @ [d]"
  by (simp add: return_job_simps create_job_def create_job_loop_read)

lemma enqueue_read:
  assumes "op_ok (e, Enqueue jid c mr ra)"
  shows "\<exists>d. within_budget d \<and> dict_get d ''state'' \<noteq> JStr ''dead''
           \<and> (storage_read (snd (enqueue e s jid c mr ra)) = storage_read s
              \<or> storage_read (snd (enqueue e s jid c mr ra)) = storage_read s @ [d])"
proof -
  define m where "m = (case mr of None \<Rightarrow> cfg_max_retries e | Some x \<Rightarrow> x)"
  have m0: "0 \<le> m" using assms by (simp add: m_def)
  show ?thesis
  proof (cases ra)
    case None
    let ?d = "to_dict (post_init e
            \<lparr>j_id = JStr jid, j_command = JStr c, j_state = JStr ''pending'', j_attempts = JInt 0,
             j_max_retries = JInt m, j_created_at = JNull, j_updated_at = JNull,
             j_error_message = JNull, j_next_retry_at = JNull\<rparr>)"
    have en: "enqueue e s jid c mr ra = return_job e (create_job s ?d)"
      using None by (simp add: enqueue_def Let_def m_def)
    have "within_budget ?d" "dict_get ?d ''state'' \<noteq> JStr ''dead''"
      using enqueue_dict[OF m0, where st = "''pending''" and e = e and i = "JStr jid" and c = "JStr c"
          and nx = JNull]
      by (simp_all only: post_init_next_retry simp_thms)
    then show ?thesis unfolding en using create_job_read[of e s ?d] by blast
  next
    case (Some t)
    show ?thesis
    proof (cases "iso_of_ts e t")
      case (Inl err)
      have "enqueue e s jid c mr ra = (Inl err, s)"
        using Some Inl by (simp add: enqueue_def Let_def)
      moreover have "within_budget (demo_job ''x'' ''pending'' 0 0)
                   \<and> dict_get (demo_job ''x'' ''pending'' 0 0) ''state'' \<noteq> JStr ''dead''"
        unfolding demo_job_def using enqueue_record[of 0 "''pending''"] by simp
      ultimately show ?thesis by auto
    next
      case (Inr stamp)
      let ?d = "to_dict ((post_init e
            \<lparr>j_id = JStr jid, j_command = JStr c, j_state = JStr ''scheduled'', j_attempts = JInt 0,
             j_max_retries = JInt m, j_created_at = JNull, j_updated_at = JNull,
             j_error_message = JNull, j_next_retry_at = JNull\<rparr>)\<lparr>j_next_retry_at := JStr stamp\<rparr>)"
      have en: "enqueue e s jid c mr ra = return_job e (create_job s ?d)"
        using Some Inr by (simp add: enqueue_def Let_def m_def)
      have "within_budget ?d" "dict_get ?d ''state'' \<noteq> JStr ''dead''"
        using enqueue_dict[OF m0, where st = "''scheduled''" and e = e and i = "JStr jid"
          and c = "JStr c" and nx = "JStr stamp"]
        by simp_all
      then show ?thesis unfolding en using create_job_read[of e s ?d] by blast
    qed
  qed
qed

lemma step_enqueue:
  assumes "list_all within_budget (storage_read s)" and "op_ok (e, Enqueue jid c mr ra)"
  shows "list_all within_budget (storage_read (step e (Enqueue jid c mr ra) s))"
    and "dead_at (storage_read (step e (Enqueue jid c mr ra) s)) k \<Longrightarrow> dead_at (storage_read s) k"
proof -
  from enqueue_read[OF assms(2), of s] obtain d where d: "within_budget d"
    "dict_get d ''state'' \<noteq> JStr ''dead''"
    and r: "storage_read (snd (enqueue e s jid c mr ra)) = storage_read s
            \<or> storage_read (snd (enqueue e s jid c mr ra)) = storage_read s @ [d]"
    by blast
  show "list_all within_budget (storage_read (step e (Enqueue jid c mr ra) s))"
    using r assms(1) d(1) by auto
  show "dead_at (storage_read (step e (Enqueue jid c mr ra) s)) k \<Longrightarrow> dead_at (storage_read s) k"
    using r d(2) by (auto simp: dead_at_append split: if_splits)
qed

lemma step_claim:
  assumes "list_all within_budget (storage_read s)"
  shows "list_all within_budget (storage_read (step e ClaimNext s))"
    and "dead_at (storage_read (step e ClaimNext s)) k \<Longrightarrow> dead_at (storage_read s) k"
  using claim_loop_inv[OF assms, of e "list_jobs s None None"]
  by (simp_all add: claim_next_job_def)

text \<open>An update of the first record with the id, by a payload that keeps the invariant.\<close>

lemma update_job_inv:
  assumes "list_all within_budget (storage_read s)"
    and "\<And>i. find_idx jid (storage_read s) = Some i
            \<Longrightarrow> within_budget (dict_update (storage_read s ! i) u)"
  shows "list_all within_budget (storage_read (snd (update_job s jid u)))"
proof (cases "find_idx jid (storage_read s)")
  case None
  then show ?thesis using assms(1) by (simp add: storage_read_update_job)
next
  case (Some i)
  show ?thesis
    using table_update[OF assms(1) assms(2)[OF Some], of i] assms(1) Some
    by (simp add: storage_read_update_job)
qed

lemma update_job_dead:
  assumes "find_idx jid (storage_read s) = Some i"
  shows "dead_at (storage_read (snd (update_job s jid u))) k =
           (if k = i \<and> write_succeeds 3 (writes s)
            then dict_get (dict_update (storage_read s ! i) u) ''state'' = JStr ''dead''
            else dead_at (storage_read s) k)"
proof -
  have len: "i < length (storage_read s)" using assms by (auto dest: find_idx_SomeD)
  show ?thesis using assms by (simp add: storage_read_update_job dead_at_update[OF len])
qed

lemma step_complete:
  assumes "list_all within_budget (storage_read s)"
  shows "list_all within_budget (storage_read (step e (Complete jid) s))"
    and "dead_at (storage_read (step e (Complete jid) s)) k \<Longrightarrow> dead_at (storage_read s) k"
proof -
  have "list_all within_budget (storage_read (step e (Complete jid) s))
      \<and> (dead_at (storage_read (step e (Complete jid) s)) k \<longrightarrow> dead_at (storage_read s) k)"
  proof (cases "get_job s (JStr jid)")
    case None
    then show ?thesis using assms by (simp add: complete_job_def)
  next
    case (Some j)
    define data where
      "data = dict_update j [(''state'', JStr ''completed''), (''updated_at'', JStr (utcnow_iso e))]"
    have ne: "j \<noteq> []" using Some by (rule get_job_nonempty)
    have c: "step e (Complete jid) s = snd (update_job s (JStr jid) data)"
      using Some ne by (simp add: complete_job_def data_def return_job_simps)
    from get_job_SomeD[OF Some] obtain i where i: "find_idx (JStr jid) (storage_read s) = Some i"
      and j: "storage_read s ! i = j" by blast
    have len: "i < length (storage_read s)" using i by (auto dest: find_idx_SomeD)
    have wb: "within_budget j" using table_nth[OF assms len] j by simp
    have new: "within_budget (dict_update j data)" "dict_get (dict_update j data) ''state'' = JStr ''completed''"
      unfolding data_def by (rule complete_record[OF wb])+
    have "list_all within_budget (storage_read (snd (update_job s (JStr jid) data)))"
      by (rule update_job_inv[OF assms]) (simp add: i j new(1))
    moreover have "dead_at (storage_read (snd (update_job s (JStr jid) data))) k
                   \<longrightarrow> dead_at (storage_read s) k"
      by (simp add: update_job_dead[OF i] j new(2))
    ultimately show ?thesis by (simp only: c)
  qed
  then show "list_all within_budget (storage_read (step e (Complete jid) s))"
    and "dead_at (storage_read (step e (Complete jid) s)) k \<Longrightarrow> dead_at (storage_read s) k"
    by simp_all
qed

lemma step_retry:
  assumes "list_all within_budget (storage_read s)"
  shows "list_all within_budget (storage_read (step e (RetryDlq jid) s))"
    and "dead_at (storage_read (step e (RetryDlq jid) s)) k \<Longrightarrow> dead_at (storage_read s) k"
proof -
  have "list_all within_budget (storage_read (step e (RetryDlq jid) s))
      \<and> (dead_at (storage_read (step e (RetryDlq jid) s)) k \<longrightarrow> dead_at (storage_read s) k)"
  proof (cases "get_job s (JStr jid)")
    case None
    then show ?thesis using assms by (simp add: retry_dlq_job_def)
  next
    case (Some j)
    define u where "u = [(''state'', JStr ''pending''), (''attempts'', JInt 0),
               (''error_message'', JNull), (''next_retry_at'', JNull),
               (''updated_at'', JStr (utcnow_iso e))]"
    have ne: "j \<noteq> []" using Some by (rule get_job_nonempty)
    show ?thesis
    proof (cases "dict_get j ''state'' = JStr ''dead''")
      case False
      then show ?thesis using assms Some ne by (simp add: retry_dlq_job_def)
    next
      case True
      have c: "step e (RetryDlq jid) s = snd (update_job s (JStr jid) u)"
        using Some ne True by (simp add: retry_dlq_job_def u_def return_job_simps)
      from get_job_SomeD[OF Some] obtain i where i: "find_idx (JStr jid) (storage_read s) = Some i"
        and j: "storage_read s ! i = j" by blast
      have len: "i < length (storage_read s)" using i by (auto dest: find_idx_SomeD)
      have wb: "within_budget j" using table_nth[OF assms len] j by simp
      have new: "within_budget (dict_update j u)" "dict_get (dict_update j u) ''state'' = JStr ''pending''"
        unfolding u_def by (rule retry_record[OF wb])+
      have "list_all within_budget (storage_read (snd (update_job s (JStr jid) u)))"
        by (rule update_job_inv[OF assms]) (simp add: i j new(1))
      moreover have "dead_at (storage_read (snd (update_job s (JStr jid) u))) k
                     \<longrightarrow> dead_at (storage_read s) k"
        by (simp add: update_job_dead[OF i] j new(2))
      ultimately show ?thesis by (simp only: c)
    qed
  qed
  then show "list_all within_budget (storage_read (step e (RetryDlq jid) s))"
    and "dead_at (storage_read (step e (RetryDlq jid) s)) k \<Longrightarrow> dead_at (storage_read s) k"
    by simp_all
qed

lemma fail_job_snd:
  assumes "get_job s (JStr jid) = Some j"
    and "map_of j ''attempts'' = Some (JInt a)" and "map_of j ''max_retries'' = Some (JInt m)"
    and "0 \<le> a"
  shows "m < a + 1 \<Longrightarrow>
           snd (fail_job e s jid em so se) =
           snd (update_job s (JStr jid)
                  ([(''state'', JStr ''dead''), (''attempts'', JInt (a + 1)),
                    (''error_message'', JStr (case em of None \<Rightarrow> [] | Some x \<Rightarrow> x)),
                    (''updated_at'', JStr (utcnow_iso e))]
                   @ opt_field ''stdout'' so @ opt_field ''stderr'' se))"
    and "a + 1 \<le> m \<Longrightarrow>
           snd (fail_job e s jid em so se) = s
           \<or> (\<exists>nx. snd (fail_job e s jid em so se) =
                 snd (update_job s (JStr jid)
                  ([(''state'', JStr ''scheduled''), (''attempts'', JInt (a + 1)),
                    (''next_retry_at'', nx),
                    (''error_message'', JStr (case em of None \<Rightarrow> [] | Some x \<Rightarrow> x)),
                    (''updated_at'', JStr (utcnow_iso e))]
                   @ opt_field ''stdout'' so @ opt_field ''stderr'' se)))"
proof -
  have ne: "j \<noteq> []" using assms(1) by (rule get_job_nonempty)
  have ia: "py_int e (dict_get_default j ''attempts'' (JInt 0)) = Inr a"
    and im: "py_int e (dict_get_default j ''max_retries'' (JInt (cfg_max_retries e))) = Inr m"
    using assms(2,3) by (simp_all add: dict_get_default_def)
  have pw: "py_pow (cfg_backoff_base e) (a + 1 - 1) = Inr (PyInt (cfg_backoff_base e ^ nat a))"
    using assms(4) by (simp add: py_pow_def)
  show "m < a + 1 \<Longrightarrow>
           snd (fail_job e s jid em so se) =
           snd (update_job s (JStr jid)
                  ([(''state'', JStr ''dead''), (''attempts'', JInt (a + 1)),
                    (''error_message'', JStr (case em of None \<Rightarrow> [] | Some x \<Rightarrow> x)),
                    (''updated_at'', JStr (utcnow_iso e))]
                   @ opt_field ''stdout'' so @ opt_field ''stderr'' se))"
    using assms(1) ne ia im by (simp add: fail_job_def Let_def return_job_simps)
  show "snd (fail_job e s jid em so se) = s
           \<or> (\<exists>nx. snd (fail_job e s jid em so se) =
                 snd (update_job s (JStr jid)
                  ([(''state'', JStr ''scheduled''), (''attempts'', JInt (a + 1)),
                    (''next_retry_at'', nx),
                    (''error_message'', JStr (case em of None \<Rightarrow> [] | Some x \<Rightarrow> x)),
                    (''updated_at'', JStr (utcnow_iso e))]
                   @ opt_field ''stdout'' so @ opt_field ''stderr'' se)))"
    if le: "a + 1 \<le> m"
  proof (cases "float_overflow (cfg_backoff_base e ^ nat a)")
    case True
    then have "fail_job e s jid em so se = (Inl OverflowError, s)"
      using assms(1) ne ia im pw le by (simp add: fail_job_def Let_def)
    then show ?thesis by simp
  next
    case False
    show ?thesis
    proof (cases "iso_of_ts e (utcnow_ts e + of_int (cfg_backoff_base e ^ nat a))")
      case (Inl err)
      then have "fail_job e s jid em so se = (Inl err, s)"
        using assms(1) ne ia im pw le False by (simp add: fail_job_def Let_def)
      then show ?thesis by simp
    next
      case (Inr stamp)
      then have "snd (fail_job e s jid em so se) =
                 snd (update_job s (JStr jid)
                  ([(''state'', JStr ''scheduled''), (''attempts'', JInt (a + 1)),
                    (''next_retry_at'', JStr stamp),
                    (''error_message'', JStr (case em of None \<Rightarrow> [] | Some x \<Rightarrow> x)),
                    (''updated_at'', JStr (utcnow_iso e))]
                   @ opt_field ''stdout'' so @ opt_field ''stderr'' se))"
        using assms(1) ne ia im pw le False by (simp add: fail_job_def Let_def return_job_simps)
      then show ?thesis by blast
    qed
  qed
qed

lemma step_fail:
  assumes "list_all within_budget (storage_read s)"
  shows "list_all within_budget (storage_read (step e (Fail jid em so se) s))"
    and "(dead_at (storage_read (step e (Fail jid em so se) s)) k \<and> \<not> dead_at (storage_read s) k)
         = (fail_exhausts s (Fail jid em so se) k \<and> \<not> dead_at (storage_read s) k)"
proof -
  have "list_all within_budget (storage_read (step e (Fail jid em so se) s))
      \<and> ((dead_at (storage_read (step e (Fail jid em so se) s)) k \<and> \<not> dead_at (storage_read s) k)
         = (fail_exhausts s (Fail jid em so se) k \<and> \<not> dead_at (storage_read s) k))"
  proof (cases "get_job s (JStr jid)")
    case None
    then have "find_idx (JStr jid) (storage_read s) = None" by (simp add: get_job_None_iff)
    then show ?thesis using assms None by (simp add: fail_job_def)
  next
    case (Some j)
    from get_job_SomeD[OF Some] obtain i where i: "find_idx (JStr jid) (storage_read s) = Some i"
      and j: "storage_read s ! i = j" by blast
    have len: "i < length (storage_read s)" using i by (auto dest: find_idx_SomeD)
    have wb: "within_budget j" using table_nth[OF assms len] j by simp
    from wb obtain a m st where f: "map_of j ''attempts'' = Some (JInt a)"
      "map_of j ''max_retries'' = Some (JInt m)" and b: "budget_ok a m st"
      by (rule within_budgetD)
    have a0: "0 \<le> a" using budget_ok_nonneg[OF b] by simp
    have fields: "int_field (storage_read s ! i) ''attempts'' = Some a"
      "int_field (storage_read s ! i) ''max_retries'' = Some m"
      using f j by (simp_all add: int_field_Some)
    have ex: "fail_exhausts s (Fail jid em so se) k
                = (k = i \<and> m < a + 1 \<and> write_succeeds 3 (writes s))"
      using i fields by auto
    show ?thesis
    proof (cases "m < a + 1")
      case True
      let ?u = "[(''state'', JStr ''dead''), (''attempts'', JInt (a + 1)),
                    (''error_message'', JStr (case em of None \<Rightarrow> [] | Some x \<Rightarrow> x)),
                    (''updated_at'', JStr (utcnow_iso e))]
                   @ opt_field ''stdout'' so @ opt_field ''stderr'' se"
      have c: "step e (Fail jid em so se) s = snd (update_job s (JStr jid) ?u)"
        using fail_job_snd(1)[OF Some f a0 True] by simp
      have a1: "0 \<le> a + 1" using a0 by simp
      have new: "within_budget (dict_update j ?u)" "dict_get (dict_update j ?u) ''state'' = JStr ''dead''"
        using fail_dead_record[OF wb a1, of "JStr (case em of None \<Rightarrow> [] | Some x \<Rightarrow> x)"
                "utcnow_iso e" so se]
        by simp_all
      have "list_all within_budget (storage_read (snd (update_job s (JStr jid) ?u)))"
        by (rule update_job_inv[OF assms]) (use new(1) in \<open>simp add: i j\<close>)
      moreover have "(dead_at (storage_read (snd (update_job s (JStr jid) ?u))) k
                        \<and> \<not> dead_at (storage_read s) k)
                   = (fail_exhausts s (Fail jid em so se) k \<and> \<not> dead_at (storage_read s) k)"
        unfolding ex update_job_dead[OF i] j new(2) using True by auto
      ultimately show ?thesis by (simp only: c)
    next
      case False
      then have le: "a + 1 \<le> m" by simp
      have nex: "\<not> fail_exhausts s (Fail jid em so se) k" unfolding ex using False by simp
      from fail_job_snd(2)[OF Some f a0 le, of e em so se]
      show ?thesis
      proof
        assume "snd (fail_job e s jid em so se) = s"
        then show ?thesis using assms nex by (simp del: fail_exhausts.simps)
      next
        assume "\<exists>nx. snd (fail_job e s jid em so se) =
                 snd (update_job s (JStr jid)
                  ([(''state'', JStr ''scheduled''), (''attempts'', JInt (a + 1)),
                    (''next_retry_at'', nx),
                    (''error_message'', JStr (case em of None \<Rightarrow> [] | Some x \<Rightarrow> x)),
                    (''updated_at'', JStr (utcnow_iso e))]
                   @ opt_field ''stdout'' so @ opt_field ''stderr'' se))"
        then obtain nx where c: "step e (Fail jid em so se) s =
                 snd (update_job s (JStr jid)
                  ([(''state'', JStr ''scheduled''), (''attempts'', JInt (a + 1)),
                    (''next_retry_at'', nx),
                    (''error_message'', JStr (case em of None \<Rightarrow> [] | Some x \<Rightarrow> x)),
                    (''updated_at'', JStr (utcnow_iso e))]
                   @ opt_field ''stdout'' so @ opt_field ''stderr'' se))"
          by auto
        let ?u = "[(''state'', JStr ''scheduled''), (''attempts'', JInt (a + 1)),
                    (''next_retry_at'', nx),
                    (''error_message'', JStr (case em of None \<Rightarrow> [] | Some x \<Rightarrow> x)),
                    (''updated_at'', JStr (utcnow_iso e))]
                   @ opt_field ''stdout'' so @ opt_field ''stderr'' se"
        have a1: "0 \<le> a + 1" using a0 by simp
        have new: "within_budget (dict_update j ?u)"
          "dict_get (dict_update j ?u) ''state'' = JStr ''scheduled''"
          using fail_scheduled_record[OF wb a1 f(2) le, of nx
                  "JStr (case em of None \<Rightarrow> [] | Some x \<Rightarrow> x)" "utcnow_iso e" so se]
          by simp_all
        have "list_all within_budget (storage_read (snd (update_job s (JStr jid) ?u)))"
          by (rule update_job_inv[OF assms]) (use new(1) in \<open>simp add: i j\<close>)
        moreover have "(dead_at (storage_read (snd (update_job s (JStr jid) ?u))) k
                        \<and> \<not> dead_at (storage_read s) k)
                   = (fail_exhausts s (Fail jid em so se) k \<and> \<not> dead_at (storage_read s) k)"
          using nex unfolding update_job_dead[OF i] j new(2) by (auto simp del: fail_exhausts.simps)
        ultimately show ?thesis by (simp only: c)
      qed
    qed
  qed
  then show "list_all within_budget (storage_read (step e (Fail jid em so se) s))"
    and "(dead_at (storage_read (step e (Fail jid em so se) s)) k \<and> \<not> dead_at (storage_read s) k)
         = (fail_exhausts s (Fail jid em so se) k \<and> \<not> dead_at (storage_read s) k)"
    by simp_all
qed

lemma step_inv:
  assumes "list_all within_budget (storage_read s)" and "op_ok (e, x)"
  shows "list_all within_budget (storage_read (step e x s))"
    and "(dead_at (storage_read (step e x s)) k \<and> \<not> dead_at (storage_read s) k)
         = (fail_exhausts s x k \<and> \<not> dead_at (storage_read s) k)"
proof -
  show "list_all within_budget (storage_read (step e x s))"
  proof (cases x)
    case (Enqueue jid c mr ra)
    then show ?thesis using step_enqueue(1)[OF assms(1)] assms(2) by simp
  next
    case ClaimNext
    then show ?thesis using step_claim(1)[OF assms(1)] by simp
  next
    case (Complete jid)
    then show ?thesis using step_complete(1)[OF assms(1)] by simp
  next
    case (Fail jid em so se)
    then show ?thesis using step_fail(1)[OF assms(1)] by simp
  next
    case (RetryDlq jid)
    then show ?thesis using step_retry(1)[OF assms(1)] by simp
  qed
  show "(dead_at (storage_read (step e x s)) k \<and> \<not> dead_at (storage_read s) k)
         = (fail_exhausts s x k \<and> \<not> dead_at (storage_read s) k)"
  proof (cases x)
    case (Enqueue jid c mr ra)
    then show ?thesis using step_enqueue(2)[OF assms(1), of e jid c mr ra k] assms(2) by auto
  next
    case ClaimNext
    then show ?thesis using step_claim(2)[OF assms(1), of e k] by auto
  next
    case (Complete jid)
    then show ?thesis using step_complete(2)[OF assms(1), of e jid k] by auto
  next
    case (Fail jid em so se)
    then show ?thesis using step_fail(2)[OF assms(1)] by simp
  next
    case (RetryDlq jid)
    then show ?thesis using step_retry(2)[OF assms(1), of e jid k] by auto
  qed
qed

lemma run_inv:
  "list_all within_budget (storage_read s) \<Longrightarrow> list_all op_ok ops \<Longrightarrow>
   list_all within_budget (storage_read (run ops s))"
proof (induction ops arbitrary: s)
  case Nil
  then show ?case by simp
next
  case (Cons p ops)
  obtain e x where p: "p = (e, x)" by (cases p)
  from Cons.prems(2) have ok: "op_ok (e, x)" and rest: "list_all op_ok ops" by (simp_all add: p)
  have "list_all within_budget (storage_read (step e x s))"
    by (rule step_inv(1)[OF Cons.prems(1) ok])
  from Cons.IH[OF this rest] show ?case by (simp add: p)
qed

section \<open>The claims\<close>

text \<open>
  C4. \<^verbatim>\<open>atomic_state_transition\<close> (compare-and-transition): when the first record with
  the given id has a state different from the expected one (or there is no such record),
  the call returns false and the store is exactly as before. Otherwise the call returns
  true exactly when one of its five write attempts succeeds; then the table on disk is the
  old one with that record replaced by the record with the new state set, the extra fields
  merged and \<^verbatim>\<open>updated_at\<close> refreshed, and when all five writes fail the file is unchanged.
\<close>

theorem atomic_state_transition_cas:
  "let r = atomic_state_transition e s job_id from_state to_state extra
   in case find_idx job_id (storage_read s) of
        None \<Rightarrow> r = (False, s)
      | Some i \<Rightarrow>
          let j = storage_read s ! i
          in get_job s job_id = Some j \<and>
             (if \<not> py_eq (dict_get j ''state'') from_state then r = (False, s)
              else fst r = write_succeeds 5 (writes s) \<and>
                   disk (snd r) =
                     (if fst r
                      then Doc ((storage_read s)
                             [i := cas_record e j to_state (case extra of None \<Rightarrow> [] | Some x \<Rightarrow> x)])
                      else disk s))"
proof (cases "find_idx job_id (storage_read s)")
  case None
  then show ?thesis by (simp add: atomic_state_transition_def cas_loop_missing)
next
  case (Some i)
  have g: "get_job s job_id = Some (storage_read s ! i)"
    using Some by (simp add: get_job_def find_job_find_idx)
  show ?thesis
  proof (cases "py_eq (dict_get (storage_read s ! i) ''state'') from_state")
    case True
    from cas_loop_match[OF Some True, of 5 e to_state "case extra of None \<Rightarrow> [] | Some x \<Rightarrow> x"]
    show ?thesis using g True Some by (simp add: atomic_state_transition_def Let_def)
  next
    case False
    from cas_loop_mismatch[OF Some False, of 5 e to_state]
    show ?thesis using g False Some by (simp add: atomic_state_transition_def Let_def)
  qed
qed

theorem atomic_state_transition_cas_witness:
  "fst (atomic_state_transition demo_env
          \<lparr>disk = Doc [demo_job ''t0'' ''completed'' 0 3, demo_job ''t1'' ''pending'' 0 3],
           writes = [False, True]\<rparr>
          (JStr ''t1'') (JStr ''pending'') (JStr ''processing'') (Some [(''worker'', JInt 7)]))
   \<and> disk (snd (atomic_state_transition demo_env
          \<lparr>disk = Doc [demo_job ''t0'' ''completed'' 0 3, demo_job ''t1'' ''pending'' 0 3],
           writes = [False, True]\<rparr>
          (JStr ''t1'') (JStr ''pending'') (JStr ''processing'') (Some [(''worker'', JInt 7)])))
     = Doc [demo_job ''t0'' ''completed'' 0 3,
            [(''id'', JStr ''t1''), (''command'', JStr ''echo hi''), (''state'', JStr ''processing''),
             (''attempts'', JInt 0), (''max_retries'', JInt 3),
             (''created_at'', JStr ''2026-01-01T00:00:00Z''),
             (''updated_at'', JStr ''2026-01-01T00:01:40Z''),
             (''error_message'', JNull), (''next_retry_at'', JNull), (''worker'', JInt 7)]]
   \<and> atomic_state_transition demo_env
          \<lparr>disk = Doc [demo_job ''t0'' ''completed'' 0 3], writes = []\<rparr>
          (JStr ''t0'') (JStr ''pending'') (JStr ''processing'') None
       = (False, \<lparr>disk = Doc [demo_job ''t0'' ''completed'' 0 3], writes = []\<rparr>)"
  using atomic_state_transition_cas
          [of demo_env
              "\<lparr>disk = Doc [demo_job ''t0'' ''completed'' 0 3, demo_job ''t1'' ''pending'' 0 3],
                writes = [False, True]\<rparr>"
              "JStr ''t1''" "JStr ''pending''" "JStr ''processing''" "Some [(''worker'', JInt 7)]"]
        atomic_state_transition_cas
          [of demo_env "\<lparr>disk = Doc [demo_job ''t0'' ''completed'' 0 3], writes = []\<rparr>"
              "JStr ''t0''" "JStr ''pending''" "JStr ''processing''" None]
  by (simp add: Let_def storage_read_def demo_job_def demo_env_def dict_get_def cas_record_def
        dict_update_Cons dict_update_Nil eval_nat_numeral)

text \<open>
  C5. \<^verbatim>\<open>complete_job\<close> raises the KeyError "Job not found" exactly when no record has the
  id. When a record has it, whatever its state, and the write succeeds within the three
  attempts of \<^verbatim>\<open>update_job\<close>, the stored state is \<^verbatim>\<open>completed\<close> and \<^verbatim>\<open>updated_at\<close> is the
  new reading of the clock. (\<open>distinct\<close>: the record is a dict, its keys are distinct.)
\<close>

theorem complete_job_unconditional:
  "(fst (complete_job e s job_id) = Inl KeyError \<longleftrightarrow> get_job s (JStr job_id) = None)
   \<and> (case get_job s (JStr job_id) of
        None \<Rightarrow> complete_job e s job_id = (Inl KeyError, s)
      | Some j \<Rightarrow>
          distinct (map fst j) \<and> write_succeeds 3 (writes s) \<longrightarrow>
            stored_field (snd (complete_job e s job_id)) (JStr job_id) ''state''
              = Some (JStr ''completed'')
          \<and> stored_field (snd (complete_job e s job_id)) (JStr job_id) ''updated_at''
              = Some (JStr (utcnow_iso e)))"
proof (cases "get_job s (JStr job_id)")
  case None
  then show ?thesis by (simp add: complete_job_def)
next
  case (Some j)
  define data where
    "data = dict_update j [(''state'', JStr ''completed''), (''updated_at'', JStr (utcnow_iso e))]"
  have ne: "j \<noteq> []" using Some by (rule get_job_nonempty)
  have c: "complete_job e s job_id = return_job e (update_job s (JStr job_id) data)"
    using Some ne by (simp add: complete_job_def data_def)
  have "fst (complete_job e s job_id) \<noteq> Inl KeyError"
    using update_job_existing(1)[OF Some, of data] from_dict_error[of e]
    by (auto simp: c return_job_simps split: sum.splits if_splits)
  moreover have "stored_field (snd (complete_job e s job_id)) (JStr job_id) ''state''
              = Some (JStr ''completed'')
          \<and> stored_field (snd (complete_job e s job_id)) (JStr job_id) ''updated_at''
              = Some (JStr (utcnow_iso e))"
    if d: "distinct (map fst j)" and w: "write_succeeds 3 (writes s)"
  proof -
    have dd: "distinct (map fst data)" using d by (simp add: data_def distinct_dict_update)
    have m: "map_of data = (map_of j)(''state'' \<mapsto> JStr ''completed'',
                                     ''updated_at'' \<mapsto> JStr (utcnow_iso e))"
      by (simp add: data_def dict_update_Cons dict_update_Nil map_of_dict_set)
    from get_job_SomeD[OF Some] obtain i where "find_idx (JStr job_id) (storage_read s) = Some i"
      and "storage_read s ! i = j" by blast
    then have idj: "dict_get j ''id'' = JStr job_id" using find_idx_SomeD by fastforce
    have mm: "map_of (dict_update j data) = (map_of j)(''state'' \<mapsto> JStr ''completed'',
                                     ''updated_at'' \<mapsto> JStr (utcnow_iso e))"
      unfolding map_of_dict_update_distinct[OF dd] m
      by (auto simp: map_add_def fun_eq_iff split: option.splits)
    have g: "\<And>k. dict_get (dict_update j data) k =
               (if k = ''updated_at'' then JStr (utcnow_iso e)
                else if k = ''state'' then JStr ''completed'' else dict_get j k)"
      unfolding dict_get_def mm by simp
    have "get_job (snd (update_job s (JStr job_id) data)) (JStr job_id) = Some (dict_update j data)"
      using update_job_existing(3)[OF Some w, of data] idj by (simp add: g)
    then show ?thesis by (simp add: c return_job_simps g stored_field_def)
  qed
  ultimately show ?thesis using Some by simp
qed

theorem complete_job_unconditional_witness:
  "stored_field (snd (complete_job demo_env (demo_store [demo_job ''t1'' ''dead'' 4 3]) ''t1''))
     (JStr ''t1'') ''state'' = Some (JStr ''completed'')
   \<and> stored_field (snd (complete_job demo_env (demo_store [demo_job ''t1'' ''dead'' 4 3]) ''t1''))
     (JStr ''t1'') ''updated_at'' = Some (JStr ''2026-01-01T00:01:40Z'')
   \<and> fst (complete_job demo_env (demo_store [demo_job ''t1'' ''dead'' 4 3]) ''t1'') \<noteq> Inl KeyError
   \<and> fst (complete_job demo_env (demo_store [demo_job ''t1'' ''dead'' 4 3]) ''t2'') = Inl KeyError"
proof -
  have 1: "get_job (demo_store [demo_job ''t1'' ''dead'' 4 3]) (JStr ''t1'')
             = Some (demo_job ''t1'' ''dead'' 4 3)"
    by code_simp
  have 2: "distinct (map fst (demo_job ''t1'' ''dead'' 4 3))" by code_simp
  have 3: "write_succeeds 3 (writes (demo_store [demo_job ''t1'' ''dead'' 4 3]))" by code_simp
  have 4: "get_job (demo_store [demo_job ''t1'' ''dead'' 4 3]) (JStr ''t2'') = None" by code_simp
  show ?thesis
    using complete_job_unconditional[of demo_env "demo_store [demo_job ''t1'' ''dead'' 4 3]" "''t1''"]
      complete_job_unconditional[of demo_env "demo_store [demo_job ''t1'' ''dead'' 4 3]" "''t2''"]
    by (simp add: 1 2 3 4) (simp add: demo_env_def)
qed

text \<open>
  C6. For an existing job, \<^verbatim>\<open>retry_dlq_job\<close> on a state other than \<^verbatim>\<open>dead\<close> raises the
  ValueError "Job is not in Dead Letter Queue" and leaves the store as it was. On a \<^verbatim>\<open>dead\<close>
  job (and a write that succeeds within the three attempts) the stored record has
  attempts 0, \<^verbatim>\<open>error_message\<close> and \<^verbatim>\<open>next_retry_at\<close> null, and state \<^verbatim>\<open>pending\<close>.
\<close>

theorem retry_dlq_job_dead_only:
  assumes "get_job s (JStr job_id) = Some j"
  shows "(dict_get j ''state'' \<noteq> JStr ''dead'' \<longrightarrow>
            retry_dlq_job e s job_id = (Inl (ValueError ''Job is not in Dead Letter Queue''), s))
       \<and> (dict_get j ''state'' = JStr ''dead'' \<and> write_succeeds 3 (writes s) \<longrightarrow>
            stored_field (snd (retry_dlq_job e s job_id)) (JStr job_id) ''state''
              = Some (JStr ''pending'')
          \<and> stored_field (snd (retry_dlq_job e s job_id)) (JStr job_id) ''attempts''
              = Some (JInt 0)
          \<and> stored_field (snd (retry_dlq_job e s job_id)) (JStr job_id) ''error_message''
              = Some JNull
          \<and> stored_field (snd (retry_dlq_job e s job_id)) (JStr job_id) ''next_retry_at''
              = Some JNull)"
proof -
  define u where "u = [(''state'', JStr ''pending''), (''attempts'', JInt 0),
               (''error_message'', JNull), (''next_retry_at'', JNull),
               (''updated_at'', JStr (utcnow_iso e))]"
  have ne: "j \<noteq> []" using assms by (rule get_job_nonempty)
  have du: "distinct (map fst u)" by (simp add: u_def)
  from get_job_SomeD[OF assms] obtain i where "find_idx (JStr job_id) (storage_read s) = Some i"
    and "storage_read s ! i = j" by blast
  then have idj: "dict_get j ''id'' = JStr job_id" using find_idx_SomeD by fastforce
  have m: "map_of (dict_update j u) = map_of j ++ map_of u"
    by (rule map_of_dict_update_distinct[OF du])
  have "''id'' \<notin> fst ` set u" by (simp add: u_def)
  then have idu: "py_eq (dict_get (dict_update j u) ''id'') (JStr job_id)"
    using idj by (simp add: dict_get_dict_update_other)
  have dead: "retry_dlq_job e s job_id = return_job e (update_job s (JStr job_id) u)"
    if "dict_get j ''state'' = JStr ''dead''"
    using assms ne that by (simp add: retry_dlq_job_def u_def)
  have "get_job (snd (retry_dlq_job e s job_id)) (JStr job_id) = Some (dict_update j u)"
    if "dict_get j ''state'' = JStr ''dead''" and w: "write_succeeds 3 (writes s)"
    using update_job_existing(3)[OF assms w idu] dead[OF that(1)] by (simp add: return_job_simps)
  moreover have "dict_get (dict_update j u) ''state'' = JStr ''pending''"
    "dict_get (dict_update j u) ''attempts'' = JInt 0"
    "dict_get (dict_update j u) ''error_message'' = JNull"
    "dict_get (dict_update j u) ''next_retry_at'' = JNull"
    unfolding dict_get_def m by (simp_all add: u_def)
  ultimately show ?thesis using assms ne by (auto simp: retry_dlq_job_def stored_field_def)
qed

theorem retry_dlq_job_dead_only_witness:
  "stored_field (snd (retry_dlq_job demo_env
       (demo_store [dict_set ''error_message'' (JStr ''boom'') (demo_job ''t1'' ''dead'' 4 3)]) ''t1''))
     (JStr ''t1'') ''state'' = Some (JStr ''pending'')
   \<and> stored_field (snd (retry_dlq_job demo_env
       (demo_store [dict_set ''error_message'' (JStr ''boom'') (demo_job ''t1'' ''dead'' 4 3)]) ''t1''))
     (JStr ''t1'') ''attempts'' = Some (JInt 0)
   \<and> stored_field (snd (retry_dlq_job demo_env
       (demo_store [dict_set ''error_message'' (JStr ''boom'') (demo_job ''t1'' ''dead'' 4 3)]) ''t1''))
     (JStr ''t1'') ''error_message'' = Some JNull
   \<and> retry_dlq_job demo_env (demo_store [demo_job ''t2'' ''scheduled'' 1 3]) ''t2''
     = (Inl (ValueError ''Job is not in Dead Letter Queue''),
        demo_store [demo_job ''t2'' ''scheduled'' 1 3])"
proof -
  have 1: "get_job (demo_store [dict_set ''error_message'' (JStr ''boom'') (demo_job ''t1'' ''dead'' 4 3)])
             (JStr ''t1'')
             = Some (dict_set ''error_message'' (JStr ''boom'') (demo_job ''t1'' ''dead'' 4 3))"
    by code_simp
  have 2: "dict_get (dict_set ''error_message'' (JStr ''boom'') (demo_job ''t1'' ''dead'' 4 3)) ''state''
             = JStr ''dead''"
    by code_simp
  have 3: "write_succeeds 3 (writes
             (demo_store [dict_set ''error_message'' (JStr ''boom'') (demo_job ''t1'' ''dead'' 4 3)]))"
    by code_simp
  have 4: "get_job (demo_store [demo_job ''t2'' ''scheduled'' 1 3]) (JStr ''t2'')
             = Some (demo_job ''t2'' ''scheduled'' 1 3)"
    by code_simp
  have 5: "dict_get (demo_job ''t2'' ''scheduled'' 1 3) ''state'' \<noteq> JStr ''dead''"
    by code_simp
  show ?thesis
    using retry_dlq_job_dead_only[OF 1, of demo_env] retry_dlq_job_dead_only[OF 4, of demo_env] 2 3 5
    by simp
qed

text \<open>
  C7. The claim wants every operation that returns a Job to succeed on a record that holds
  captured \<^verbatim>\<open>stdout\<close>/\<^verbatim>\<open>stderr\<close>. The dataclass has no such fields: \<^verbatim>\<open>fail_job\<close> called with
  output persists the two keys and then raises TypeError in \<^verbatim>\<open>Job.from_dict\<close>, and on the
  record it leaves behind \<^verbatim>\<open>claim_next_job\<close> (after moving the job to \<^verbatim>\<open>processing\<close>),
  \<^verbatim>\<open>complete_job\<close>, a later \<^verbatim>\<open>fail_job\<close> and \<^verbatim>\<open>list_jobs\<close> raise TypeError as well.
\<close>

theorem fail_job_output_type_error:
  "fail_job demo_env (demo_store [demo_job ''t1'' ''processing'' 0 3]) ''t1''
     (Some ''boom'') (Some ''out'') (Some ''err'')
     = (Inl TypeError, demo_store [demo_failed_job])
   \<and> claim_next_job (demo_env\<lparr>now_ts := 1767225800\<rparr>) (demo_store [demo_failed_job])
     = (Inl TypeError,
        demo_store [dict_set ''state'' (JStr ''processing'') demo_failed_job])
   \<and> fst (complete_job demo_env (demo_store [demo_failed_job]) ''t1'') = Inl TypeError
   \<and> fst (fail_job demo_env (demo_store [demo_failed_job]) ''t1'' None None None) = Inl TypeError
   \<and> qm_list_jobs demo_env (demo_store [demo_failed_job]) None 20 = Inl TypeError"
  by code_simp

text \<open>
  C8. The claim wants every state outside the five known ones counted as \<^verbatim>\<open>failed\<close> and
  \<^verbatim>\<open>total\<close> equal to the number of records. The test \<^verbatim>\<open>s in stats\<close> also finds the key
  \<^verbatim>\<open>"total"\<close>: one record whose state is the string \<^verbatim>\<open>total\<close> gives \<^verbatim>\<open>failed\<close> 0 and
  \<^verbatim>\<open>total\<close> 2. (On the table of the specification's scenario the counts are as stated.)
\<close>

theorem get_stats_total_state:
  "get_stats (demo_store [demo_job ''a'' ''total'' 0 3])
     = [(''pending'', 0), (''processing'', 0), (''completed'', 0), (''failed'', 0),
        (''dead'', 0), (''total'', 2)]
   \<and> get_stats (demo_store [demo_job ''a'' ''pending'' 0 3, demo_job ''b'' ''pending'' 0 3,
                            demo_job ''c'' ''processing'' 0 3, demo_job ''d'' ''dead'' 4 3])
     = [(''pending'', 2), (''processing'', 1), (''completed'', 0), (''failed'', 0),
        (''dead'', 1), (''total'', 4)]"
  by code_simp

text \<open>
  C9, as stated, fails for the limit 0: a table of two jobs listed with limit 0 comes back
  whole, two entries and not at most zero.
\<close>

theorem list_jobs_limit_zero:
  "list_jobs (demo_store [demo_job ''a'' ''pending'' 0 3, demo_job ''b'' ''dead'' 4 3]) (Some 0) None
     = [demo_job ''a'' ''pending'' 0 3, demo_job ''b'' ''dead'' 4 3]
   \<and> \<not> length (list_jobs (demo_store [demo_job ''a'' ''pending'' 0 3, demo_job ''b'' ''dead'' 4 3])
                 (Some 0) None) \<le> 0"
  by code_simp

text \<open>
  C9, amended. The guards \<^verbatim>\<open>if state:\<close> and \<^verbatim>\<open>if limit:\<close> apply a filter only when it is a
  non-empty string and a limit only when it is not 0. For a limit \<open>n \<ge> 1\<close> and a filter
  that is absent or a non-empty state, \<^verbatim>\<open>list_jobs\<close> returns exactly the matching jobs in
  storage order, cut to the first \<open>n\<close>, so at most \<open>n\<close> entries. The function only reads:
  it has no store to return, the table is as before.
\<close>

theorem list_jobs_limited:
  assumes "1 \<le> n" and "state \<noteq> Some []"
  shows "list_jobs s (Some n) state = take (nat n) (filter (matches_state state) (storage_read s))
       \<and> int (length (list_jobs s (Some n) state)) \<le> n"
proof -
  have m: "matches_state state = (\<lambda>j. case state of None \<Rightarrow> True
                                         | Some st \<Rightarrow> dict_get j ''state'' = JStr st)"
    by (simp add: fun_eq_iff matches_state_def)
  have "list_jobs s (Some n) state = take (nat n) (filter (matches_state state) (storage_read s))"
    unfolding m using assms
    by (cases state) (simp_all add: list_jobs_def py_slice_to_def Let_def)
  then show ?thesis using assms by simp
qed

theorem list_jobs_limited_witness:
  "list_jobs (demo_store [demo_job ''a'' ''pending'' 0 3, demo_job ''b'' ''dead'' 4 3,
                          demo_job ''c'' ''dead'' 4 3, demo_job ''d'' ''dead'' 5 3])
     (Some 2) (Some ''dead'')
   = [demo_job ''b'' ''dead'' 4 3, demo_job ''c'' ''dead'' 4 3]"
proof -
  have "take (nat 2) (filter (matches_state (Some ''dead''))
          (storage_read (demo_store [demo_job ''a'' ''pending'' 0 3, demo_job ''b'' ''dead'' 4 3,
                          demo_job ''c'' ''dead'' 4 3, demo_job ''d'' ''dead'' 5 3])))
        = [demo_job ''b'' ''dead'' 4 3, demo_job ''c'' ''dead'' 4 3]"
    by code_simp
  then show ?thesis
    using list_jobs_limited[of 2 "Some ''dead''"
            "demo_store [demo_job ''a'' ''pending'' 0 3, demo_job ''b'' ''dead'' 4 3,
                          demo_job ''c'' ''dead'' 4 3, demo_job ''d'' ''dead'' 5 3]"]
    by simp
qed

text \<open>
  C1. The claim wants \<^verbatim>\<open>claim_next_job\<close> to return the job read back after the first
  successful compare-and-transition. On the record a failed command leaves behind (it
  holds \<^verbatim>\<open>stdout\<close> and \<^verbatim>\<open>stderr\<close>) the transition to \<^verbatim>\<open>processing\<close> succeeds and is
  persisted, and then \<^verbatim>\<open>Job.from_dict\<close> raises TypeError: no job is returned, the record
  stays in \<^verbatim>\<open>processing\<close>, and the claimable job behind it is not reached.
\<close>

theorem claim_next_job_reread_type_error:
  "claim_next_job (demo_env\<lparr>now_ts := 1767225800, gmtime_str := ''2026-01-01T00:03:20Z''\<rparr>)
     (demo_store [demo_failed_job, demo_job ''t2'' ''pending'' 0 3])
   = (Inl TypeError,
      demo_store [dict_set ''updated_at'' (JStr ''2026-01-01T00:03:20Z'')
                    (dict_set ''state'' (JStr ''processing'') demo_failed_job),
                  demo_job ''t2'' ''pending'' 0 3])"
  by code_simp




text \<open>
  C10, as stated, fails: a file that is not valid JSON can make \<^verbatim>\<open>json.load\<close> raise
  something other than json.JSONDecodeError (RecursionError for a file of 200000 opening
  brackets, UnicodeDecodeError for bytes that are not UTF-8), and then every read path
  raises instead of behaving as on an empty table.
\<close>

theorem unreadable_file_raises:
  "list_jobs_on (Raises RecursionError) None None = Inl RecursionError
   \<and> get_job_on (Raises RecursionError) (JStr ''t1'') = Inl RecursionError
   \<and> get_stats_on (Raises RecursionError) = Inl RecursionError
   \<and> list_jobs_on (Raises UnicodeDecodeError) None None = Inl UnicodeDecodeError"
  by (simp add: list_jobs_on_def get_job_on_def get_stats_on_def file_of_load_def)

text \<open>
  C10, amended. When parsing the job-table file raises json.JSONDecodeError, the read
  paths behave as on an empty table and raise nothing: \<^verbatim>\<open>list_jobs\<close> returns the empty
  list for every filter and limit, \<^verbatim>\<open>get_job\<close> finds nothing, \<^verbatim>\<open>get_stats\<close> returns zero
  in every bucket and a total of zero.
\<close>

theorem decode_error_reads_empty:
  "list_jobs_on (Raises JSONDecodeError) limit state = Inr []
   \<and> get_job_on (Raises JSONDecodeError) job_id = Inr None
   \<and> get_stats_on (Raises JSONDecodeError)
       = Inr [(''pending'', 0), (''processing'', 0), (''completed'', 0), (''failed'', 0),
              (''dead'', 0), (''total'', 0)]"
proof -
  have l: "\<And>limit state. list_jobs \<lparr>disk = BadJson, writes = []\<rparr> limit state = []"
    by (simp add: list_jobs_def storage_read_def py_slice_to_def Let_def split: option.splits)
  show ?thesis
    by (simp add: list_jobs_on_def get_job_on_def get_stats_on_def file_of_load_def l
          get_job_def get_stats_def storage_read_def)
qed

theorem decode_error_reads_empty_witness:
  "list_jobs_on (Raises JSONDecodeError) (Some 20) (Some ''dead'') = Inr []
   \<and> get_job_on (Raises JSONDecodeError) (JStr ''t1'') = Inr None
   \<and> get_stats_on (Raises JSONDecodeError)
       = Inr [(''pending'', 0), (''processing'', 0), (''completed'', 0), (''failed'', 0),
              (''dead'', 0), (''total'', 0)]"
  using decode_error_reads_empty[of "Some 20" "Some ''dead''" "JStr ''t1''"] by simp

text \<open>
  C2, as stated, fails: \<^verbatim>\<open>complete_job\<close> is unconditional, so a job that died with
  attempts 1 against a budget of 0 and is then completed has a state other than \<^verbatim>\<open>dead\<close>
  and attempts above \<^verbatim>\<open>max_retries\<close>.
\<close>

theorem budget_broken_by_complete:
  "stored_field
     (run [(demo_env, Enqueue ''t1'' ''false'' (Some 0) None), (demo_env, ClaimNext),
           (demo_env, Fail ''t1'' (Some ''err'') None None), (demo_env, Complete ''t1'')]
        (demo_store []))
     (JStr ''t1'') ''state'' = Some (JStr ''completed'')
   \<and> stored_field
     (run [(demo_env, Enqueue ''t1'' ''false'' (Some 0) None), (demo_env, ClaimNext),
           (demo_env, Fail ''t1'' (Some ''err'') None None), (demo_env, Complete ''t1'')]
        (demo_store []))
     (JStr ''t1'') ''attempts'' = Some (JInt 1)
   \<and> stored_field
     (run [(demo_env, Enqueue ''t1'' ''false'' (Some 0) None), (demo_env, ClaimNext),
           (demo_env, Fail ''t1'' (Some ''err'') None None), (demo_env, Complete ''t1'')]
        (demo_store []))
     (JStr ''t1'') ''max_retries'' = Some (JInt 0)"
  by code_simp

text \<open>
  C2, amended. Start from a table whose records satisfy \<open>within_budget\<close> (the empty table
  does) and run any sequence of enqueue, claim_next, complete, fail and retry_from_dlq in
  which every enqueue sets a non-negative budget. Then every record still satisfies
  \<open>within_budget\<close>: attempts and budget are non-negative integers and attempts is at most
  the budget unless the state is \<^verbatim>\<open>dead\<close> or \<^verbatim>\<open>completed\<close>. And from any store so reached,
  a further operation turns record \<open>k\<close> from not dead to dead exactly when it is a fail
  that reaches that record, increments its attempts to a value strictly greater than its
  budget, and is written.
\<close>

theorem budget_invariant:
  assumes "list_all within_budget (storage_read s)" and "list_all op_ok ops"
  shows "list_all within_budget (storage_read (run ops s))
       \<and> (\<forall>e x k. op_ok (e, x) \<longrightarrow>
            (dead_at (storage_read (step e x (run ops s))) k
               \<and> \<not> dead_at (storage_read (run ops s)) k)
            = (fail_exhausts (run ops s) x k \<and> \<not> dead_at (storage_read (run ops s)) k))"
  using run_inv[OF assms] step_inv(2)[OF run_inv[OF assms]] by blast

theorem budget_invariant_witness:
  "list_all within_budget
     (storage_read (run [(demo_env, Enqueue ''t1'' ''false'' (Some 0) None), (demo_env, ClaimNext)]
                      (demo_store [])))
   \<and> dead_at
       (storage_read
          (step demo_env (Fail ''t1'' (Some ''err'') None None)
             (run [(demo_env, Enqueue ''t1'' ''false'' (Some 0) None), (demo_env, ClaimNext)]
                (demo_store []))))
       0"
proof -
  have 1: "list_all within_budget (storage_read (demo_store []))"
    by (simp add: demo_store_def storage_read_def)
  have 2: "list_all op_ok [(demo_env, Enqueue ''t1'' ''false'' (Some 0) None), (demo_env, ClaimNext)]"
    by simp
  have 3: "fail_exhausts
             (run [(demo_env, Enqueue ''t1'' ''false'' (Some 0) None), (demo_env, ClaimNext)]
                (demo_store []))
             (Fail ''t1'' (Some ''err'') None None) 0"
    by code_simp
  have 4: "\<not> dead_at
             (storage_read
                (run [(demo_env, Enqueue ''t1'' ''false'' (Some 0) None), (demo_env, ClaimNext)]
                   (demo_store [])))
             0"
    by code_simp
  have 5: "op_ok (demo_env, Fail ''t1'' (Some ''err'') None None)" by simp
  note b = budget_invariant[OF 1 2]
  from b have "list_all within_budget
     (storage_read (run [(demo_env, Enqueue ''t1'' ''false'' (Some 0) None), (demo_env, ClaimNext)]
                      (demo_store [])))"
    by (rule conjunct1)
  moreover from b[THEN conjunct2, rule_format, OF 5, of 0] 3 4
  have "dead_at
       (storage_read
          (step demo_env (Fail ''t1'' (Some ''err'') None None)
             (run [(demo_env, Enqueue ''t1'' ''false'' (Some 0) None), (demo_env, ClaimNext)]
                (demo_store []))))
       0"
    by blast
  ultimately show ?thesis by (rule conjI)
qed

end
